theory Spec2Isabelle
  imports Complex_Main
begin

section \<open>Values shared by the controller, the repositories and the server\<close>

text \<open>
  A JavaScript \<open>Error\<close> is its message. A promise either resolves or rejects:
  \<open>Inr v\<close> is a resolved value, \<open>Inl e\<close> a rejection (a \<open>throw\<close> inside an
  \<open>async\<close> function).
\<close>

datatype error = Error string

fun message :: "error \<Rightarrow> string" where
  "message (Error m) = m"

type_synonym 'a result = "error + 'a"

text \<open>The body handed to \<open>res.json\<close>. Numbers are carried as rationals: the code only copies them.\<close>

datatype json = JNull | JNum rat | JStr string | JArr "json list" | JObj "(string \<times> json) list"

text \<open>
  What a request handler leaves behind: a response written with \<open>res.status(n).json(body)\<close>
  (\<open>res.json(body)\<close> alone writes status 200), or a rejected promise with no response
  written by the handler.
\<close>

datatype outcome = Responded nat json | Escaped error

text \<open>
  \<open>if (x)\<close>, \<open>!x\<close> and \<open>x || y\<close> on a value that is a string, \<open>null\<close> or
  \<open>undefined\<close>: only a non-empty string is truthy.
\<close>

definition truthy :: "string option \<Rightarrow> bool" where
  "truthy v = (case v of None \<Rightarrow> False | Some s \<Rightarrow> s \<noteq> [])"

text \<open>\<open>String(n)\<close> on an integer: its decimal digits.\<close>

fun decimal :: "nat \<Rightarrow> string" where
  "decimal n =
     (if n < 10 then [''0123456789'' ! n]
      else decimal (n div 10) @ [''0123456789'' ! (n mod 10)])"

definition String_int :: "int \<Rightarrow> string" where
  "String_int i = (if i < 0 then CHR ''-'' # decimal (nat (- i)) else decimal (nat i))"


section \<open>The persistent store\<close>

text \<open>The \<open>users\<close> table: the two columns the repository writes.\<close>

record user_row =
  user_id :: string
  email :: string

text \<open>
  The object literal the controller passes to \<open>orderRepository.create\<close>
  (order.controller.ts, lines 48 to 60), and the order object the repository hands back:
  the properties the controller reads from it (lines 64, 99 and 104 to 123). The
  properties \<open>id\<close> and \<open>type\<close> are named \<open>order_id\<close> and \<open>order_type\<close> here.
\<close>

record order_fields =
  order_id :: string
  userId :: string
  quoteId :: string
  order_type :: string
  base :: string
  asset :: string
  fiatAmount :: rat
  cryptoAmount :: rat
  exchangeRate :: rat
  fee :: rat
  status :: string

record order = order_fields +
  orderNumber :: int
  paymentId :: "string option"
  createdAt :: nat
  updatedAt :: nat

definition QUOTE_LOCKED :: string where
  "QUOTE_LOCKED = ''QUOTE_LOCKED''"

text \<open>
  A row version of the \<open>orders\<close> table with the state of the transaction that wrote it:
  still in progress on a connection, committed, or aborted. Only committed rows are
  visible to a read.
\<close>

datatype tx_state = InProgress nat | Committed | Aborted

text \<open>
  \<open>order_number_seq\<close> is the last value the sequence of the same name handed out
  (the migration at the end of user.repository.ts creates it and makes
  \<open>nextval('order_number_seq')\<close> the default of \<open>orders.order_number\<close>).
  \<open>open_tx\<close> lists the connections with a transaction block open.
\<close>

record database =
  users :: "user_row list"
  order_tuples :: "(order \<times> tx_state) list"
  order_number_seq :: int
  open_tx :: "nat list"

definition visible_orders :: "database \<Rightarrow> order list" where
  "visible_orders d = map fst (filter (\<lambda>t. snd t = Committed) (order_tuples d))"

text \<open>The statements the controller sends on its checked-out client.\<close>

datatype statement = BEGIN | COMMIT | ROLLBACK

definition settle :: "nat \<Rightarrow> tx_state \<Rightarrow> (order \<times> tx_state) \<Rightarrow> (order \<times> tx_state)" where
  "settle c s t = (if snd t = InProgress c then (fst t, s) else t)"

fun execute :: "nat \<Rightarrow> statement \<Rightarrow> database \<Rightarrow> database" where
  "execute c BEGIN d = (if c \<in> set (open_tx d) then d else d\<lparr>open_tx := c # open_tx d\<rparr>)"
| "execute c COMMIT d =
     d\<lparr>order_tuples := map (settle c Committed) (order_tuples d),
       open_tx := removeAll c (open_tx d)\<rparr>"
| "execute c ROLLBACK d =
     d\<lparr>order_tuples := map (settle c Aborted) (order_tuples d),
       open_tx := removeAll c (open_tx d)\<rparr>"

text \<open>
  Modelled from the spec: order.repository.ts is not among the sources. Section 4.2:
  \<open>createOrder(fields)\<close> assigns the next value of the single shared counter as
  \<open>orderNumber\<close> and inserts the full order row, inside the transaction the workflow
  opened; \<open>id\<close> is the primary key. The counter is advanced first and is never handed
  back: an insert that fails on the primary key leaves a dead row version and a gap.
  The row is written on connection \<open>c\<close> at time \<open>t\<close>.
\<close>

definition new_order :: "order_fields \<Rightarrow> int \<Rightarrow> nat \<Rightarrow> order" where
  "new_order f n t =
     \<lparr>order_id = order_id f, userId = userId f, quoteId = quoteId f,
      order_type = order_type f, base = base f, asset = asset f,
      fiatAmount = fiatAmount f, cryptoAmount = cryptoAmount f,
      exchangeRate = exchangeRate f, fee = fee f, status = status f,
      orderNumber = n, paymentId = None, createdAt = t, updatedAt = t\<rparr>"

definition live_ids :: "database \<Rightarrow> string list" where
  "live_ids d = map (\<lambda>t. order_id (fst t)) (filter (\<lambda>t. snd t \<noteq> Aborted) (order_tuples d))"

definition insert_order :: "nat \<Rightarrow> nat \<Rightarrow> order_fields \<Rightarrow> database \<Rightarrow> order result \<times> database" where
  "insert_order c t f d =
     (let n = order_number_seq d + 1;
          row = new_order f n t
      in if order_id f \<in> set (live_ids d)
         then (Inl (Error ''duplicate key value violates unique constraint orders_pkey''),
               d\<lparr>order_tuples := order_tuples d @ [(row, Aborted)], order_number_seq := n\<rparr>)
         else (Inr row,
               d\<lparr>order_tuples :=
                    order_tuples d @ [(row, if c \<in> set (open_tx d) then InProgress c else Committed)],
                 order_number_seq := n\<rparr>))"

text \<open>
  Modelled from the spec: \<open>findById(id) -> Order|absent\<close> and
  \<open>findByUserId(id)\<close>, the owner's orders in reverse chronological order, stable
  (section 4.2).
\<close>

definition findById :: "string \<Rightarrow> database \<Rightarrow> order option" where
  "findById i d = find (\<lambda>x. order_id x = i) (visible_orders d)"

definition findByUserId :: "string \<Rightarrow> database \<Rightarrow> order list" where
  "findByUserId u d =
     sort_key (\<lambda>x. - int (createdAt x)) (filter (\<lambda>x. userId x = u) (visible_orders d))"

text \<open>
  Any interleaving of the statements of any number of connections, whichever process
  opened them, is a list of store operations run against the one database.
\<close>

datatype store_op = Transaction nat statement | Insert nat nat order_fields

fun store_step :: "database \<Rightarrow> store_op \<Rightarrow> database" where
  "store_step d (Transaction c s) = execute c s d"
| "store_step d (Insert c t f) = snd (insert_order c t f d)"

definition run_store :: "store_op list \<Rightarrow> database \<Rightarrow> database" where
  "run_store ops d = foldl store_step d ops"


section \<open>The process and what it cannot control\<close>

text \<open>
  Modelled from the spec: the pricing service is not among the sources. Section 6:
  \<open>validateQuote(quoteId) -> boolean\<close> and \<open>getQuote(quoteId)\<close>, a quote or absent.
  The two answers are independent, since a quote can go away between the two calls.
\<close>

record quote =
  quote_base :: string
  quote_asset :: string
  quote_amount :: rat
  quote_cryptoAmount :: rat
  quote_exchangeRate :: rat
  quote_fee :: rat

record pricingService =
  validateQuote :: "string \<Rightarrow> bool"
  getQuote :: "string \<Rightarrow> quote option"

text \<open>
  The world a handler runs in: the database, the pricing service, the module variable
  \<open>cachedAnonymousUserId\<close> of user.repository.ts (line 10), \<open>process.env.NODE_ENV\<close>,
  and two counters that only observe: how often the anonymous-user statement was sent
  to the pool, and how many pool clients are checked out.
\<close>

record world =
  db :: database
  pricing :: pricingService
  cachedAnonymousUserId :: "string option"
  NODE_ENV :: "string option"
  anonymous_queries :: nat
  clients_out :: nat

text \<open>
  Every awaited call to a collaborator either completes or rejects; a rejected call
  has not run. The calls of one request, by the place that makes them.
\<close>

datatype fate = Completes | Rejects error

datatype site = Connect | Resolve | Validate | GetQuote | Query statement | Create
  | FindById | FindByUserId

text \<open>
  What one request draws from outside: the fate of each call, the value of
  \<open>gen_random_uuid()\<close> in the database, the value of \<open>uuidv4()\<close>, the connection
  \<open>pool.connect()\<close> hands out, and the clock.
\<close>

record chance =
  fate_of :: "site \<Rightarrow> fate"
  gen_random_uuid :: string
  uuidv4 :: string
  client :: nat
  now :: nat

record request =
  req_user :: "string option"
  req_quote_id :: "string option"
  req_params_id :: string


section \<open>user.repository.ts\<close>

definition ANONYMOUS_EMAIL :: string where
  "ANONYMOUS_EMAIL = ''anonymous@exury.io''"

text \<open>
  The statement of lines 23 to 31, run alone. \<open>ins\<close> is the row the insert returns:
  none when a row with the email exists (\<open>ON CONFLICT (email) DO NOTHING\<close>). The
  second branch of the \<open>UNION ALL\<close> reads the table as it was when the statement
  started. A generated id that is already a primary key fails the statement.
\<close>

definition anonymous_user_statement :: "string \<Rightarrow> user_row list \<Rightarrow> string list result \<times> user_row list" where
  "anonymous_user_statement fresh us =
     (let existing = map user_id (filter (\<lambda>u. email u = ANONYMOUS_EMAIL) us);
          conflict = (existing \<noteq> []);
          ins = (if conflict then [] else [fresh])
      in if \<not> conflict \<and> fresh \<in> set (map user_id us)
         then (Inl (Error ''duplicate key value violates unique constraint users_pkey''), us)
         else (Inr (take 1 (ins @ existing)),
               if conflict then us else us @ [\<lparr>user_id = fresh, email = ANONYMOUS_EMAIL\<rparr>]))"

definition pool_query_anonymous :: "chance \<Rightarrow> world \<Rightarrow> string list result \<times> world" where
  "pool_query_anonymous ch w =
     (let w1 = w\<lparr>anonymous_queries := anonymous_queries w + 1\<rparr>
      in case fate_of ch Resolve of
           Rejects e \<Rightarrow> (Inl e, w1)
         | Completes \<Rightarrow>
             (case anonymous_user_statement (gen_random_uuid ch) (users (db w)) of
                (res, us) \<Rightarrow> (res, w1\<lparr>db := (db w)\<lparr>users := us\<rparr>\<rparr>)))"

text \<open>
  \<open>getOrCreateAnonymousUserId\<close> (lines 16 to 46) with \<open>pool.query\<close> as a parameter:
  the cache test, the awaited query, the zero-rows test, the assignment to the cache.
  The \<open>catch\<close> logs and rethrows the same error.
\<close>

definition getOrCreateAnonymousUserId_via ::
  "(world \<Rightarrow> string list result \<times> world) \<Rightarrow> world \<Rightarrow> string result \<times> world" where
  "getOrCreateAnonymousUserId_via pool_query w =
     (case cachedAnonymousUserId w of
        Some c \<Rightarrow>
          if c \<noteq> [] then (Inr c, w)
          else (case pool_query w of
                  (Inl e, w1) \<Rightarrow> (Inl e, w1)
                | (Inr [], w1) \<Rightarrow> (Inl (Error ''Failed to get or create anonymous user''), w1)
                | (Inr (i # _), w1) \<Rightarrow> (Inr i, w1\<lparr>cachedAnonymousUserId := Some i\<rparr>))
      | None \<Rightarrow>
          (case pool_query w of
             (Inl e, w1) \<Rightarrow> (Inl e, w1)
           | (Inr [], w1) \<Rightarrow> (Inl (Error ''Failed to get or create anonymous user''), w1)
           | (Inr (i # _), w1) \<Rightarrow> (Inr i, w1\<lparr>cachedAnonymousUserId := Some i\<rparr>)))"

definition getOrCreateAnonymousUserId :: "chance \<Rightarrow> world \<Rightarrow> string result \<times> world" where
  "getOrCreateAnonymousUserId ch w = getOrCreateAnonymousUserId_via (pool_query_anonymous ch) w"

text \<open>Calling the resolver again and again in one process, each call awaited before the next.\<close>

fun resolve_each :: "chance list \<Rightarrow> world \<Rightarrow> string result list \<times> world" where
  "resolve_each [] w = ([], w)"
| "resolve_each (ch # chs) w =
     (case getOrCreateAnonymousUserId ch w of
        (r, w1) \<Rightarrow> (case resolve_each chs w1 of (rs, w2) \<Rightarrow> (r # rs, w2)))"


section \<open>order.controller.ts\<close>

text \<open>
  The expression \<open>(req as any).user?.id || (await getOrCreateAnonymousUserId())\<close> of
  lines 25, 91 and 140.
\<close>

definition acting_userId :: "chance \<Rightarrow> request \<Rightarrow> world \<Rightarrow> string result \<times> world" where
  "acting_userId ch req w =
     (case req_user req of
        Some u \<Rightarrow> if u \<noteq> [] then (Inr u, w) else getOrCreateAnonymousUserId ch w
      | None \<Rightarrow> getOrCreateAnonymousUserId ch w)"

text \<open>The awaited calls of the controller, each with its fate.\<close>

definition pricingService_validateQuote :: "chance \<Rightarrow> string \<Rightarrow> world \<Rightarrow> bool result" where
  "pricingService_validateQuote ch q w =
     (case fate_of ch Validate of
        Rejects e \<Rightarrow> Inl e
      | Completes \<Rightarrow> Inr (validateQuote (pricing w) q))"

definition pricingService_getQuote :: "chance \<Rightarrow> string \<Rightarrow> world \<Rightarrow> quote option result" where
  "pricingService_getQuote ch q w =
     (case fate_of ch GetQuote of
        Rejects e \<Rightarrow> Inl e
      | Completes \<Rightarrow> Inr (getQuote (pricing w) q))"

definition client_query :: "chance \<Rightarrow> statement \<Rightarrow> world \<Rightarrow> unit result \<times> world" where
  "client_query ch s w =
     (case fate_of ch (Query s) of
        Rejects e \<Rightarrow> (Inl e, w)
      | Completes \<Rightarrow> (Inr (), w\<lparr>db := execute (client ch) s (db w)\<rparr>))"

definition orderRepository_create :: "chance \<Rightarrow> order_fields \<Rightarrow> world \<Rightarrow> order result \<times> world" where
  "orderRepository_create ch f w =
     (case fate_of ch Create of
        Rejects e \<Rightarrow> (Inl e, w)
      | Completes \<Rightarrow>
          (case insert_order (client ch) (now ch) f (db w) of
             (r, d) \<Rightarrow> (r, w\<lparr>db := d\<rparr>)))"

definition orderRepository_findById :: "chance \<Rightarrow> string \<Rightarrow> world \<Rightarrow> order option result" where
  "orderRepository_findById ch i w =
     (case fate_of ch FindById of
        Rejects e \<Rightarrow> Inl e
      | Completes \<Rightarrow> Inr (findById i (db w)))"

definition orderRepository_findByUserId :: "chance \<Rightarrow> string \<Rightarrow> world \<Rightarrow> order list result" where
  "orderRepository_findByUserId ch u w =
     (case fate_of ch FindByUserId of
        Rejects e \<Rightarrow> Inl e
      | Completes \<Rightarrow> Inr (findByUserId u (db w)))"

text \<open>
  The \<open>try\<close> block of \<open>createOrder\<close> (lines 23 to 71): \<open>Inr\<close> is the response it
  wrote, \<open>Inl\<close> the error that reaches the \<open>catch\<close>.
\<close>

definition createOrder_try :: "chance \<Rightarrow> request \<Rightarrow> world \<Rightarrow> (nat \<times> json) result \<times> world" where
  "createOrder_try ch req w =
     (case acting_userId ch req w of
        (Inl e, w1) \<Rightarrow> (Inl e, w1)
      | (Inr uid, w1) \<Rightarrow>
          if \<not> truthy (req_quote_id req)
          then (Inr (400, JObj [(''error'', JStr ''quote_id is required'')]), w1)
          else
            (let quote_id = the (req_quote_id req) in
             case pricingService_validateQuote ch quote_id w1 of
               Inl e \<Rightarrow> (Inl e, w1)
             | Inr isValid \<Rightarrow>
                 if \<not> isValid
                 then (Inr (410, JObj [(''error'', JStr ''Quote has expired or is invalid'')]), w1)
                 else
                   (case pricingService_getQuote ch quote_id w1 of
                      Inl e \<Rightarrow> (Inl e, w1)
                    | Inr None \<Rightarrow> (Inr (404, JObj [(''error'', JStr ''Quote not found'')]), w1)
                    | Inr (Some q) \<Rightarrow>
                        (case client_query ch BEGIN w1 of
                           (Inl e, w2) \<Rightarrow> (Inl e, w2)
                         | (Inr _, w2) \<Rightarrow>
                             (let orderId = uuidv4 ch in
                              case orderRepository_create ch
                                     \<lparr>order_id = orderId, userId = uid, quoteId = quote_id,
                                      order_type = ''buy'', base = quote_base q,
                                      asset = quote_asset q, fiatAmount = quote_amount q,
                                      cryptoAmount = quote_cryptoAmount q,
                                      exchangeRate = quote_exchangeRate q, fee = quote_fee q,
                                      status = QUOTE_LOCKED\<rparr> w2 of
                                (Inl e, w3) \<Rightarrow> (Inl e, w3)
                              | (Inr ord, w3) \<Rightarrow>
                                  (case client_query ch COMMIT w3 of
                                     (Inl e, w4) \<Rightarrow> (Inl e, w4)
                                   | (Inr _, w4) \<Rightarrow>
                                       (Inr (201,
                                          JObj [(''id'', JStr orderId),
                                                (''order_id'', JStr orderId),
                                                (''order_number'', JNum (of_int (orderNumber ord))),
                                                (''reference'', JStr (String_int (orderNumber ord))),
                                                (''status'', JStr QUOTE_LOCKED)]),
                                        w4)))))))"

text \<open>
  \<open>createOrder\<close> (lines 20 to 82). \<open>pool.connect()\<close> is awaited before the \<open>try\<close>;
  the \<open>catch\<close> awaits \<open>ROLLBACK\<close> first and writes the 500 response after it; the
  \<open>finally\<close> releases the client on every path.
\<close>

definition release :: "world \<Rightarrow> world" where
  "release w = w\<lparr>clients_out := clients_out w - 1\<rparr>"

definition createOrder :: "chance \<Rightarrow> request \<Rightarrow> world \<Rightarrow> outcome \<times> world" where
  "createOrder ch req w =
     (case fate_of ch Connect of
        Rejects e \<Rightarrow> (Escaped e, w)
      | Completes \<Rightarrow>
          (case createOrder_try ch req (w\<lparr>clients_out := clients_out w + 1\<rparr>) of
             (Inr (code, body), w1) \<Rightarrow> (Responded code body, release w1)
           | (Inl e, w1) \<Rightarrow>
               (case client_query ch ROLLBACK w1 of
                  (Inl e', w2) \<Rightarrow> (Escaped e', release w2)
                | (Inr _, w2) \<Rightarrow>
                    (Responded 500
                       (JObj [(''error'', JStr ''Failed to create order''),
                              (''message'', JStr (message e))]),
                     release w2))))"

text \<open>\<open>getOrder\<close> (lines 88 to 132).\<close>

definition order_projection :: "order \<Rightarrow> json" where
  "order_projection x =
     JObj [(''id'', JStr (order_id x)),
           (''order_id'', JStr (order_id x)),
           (''order_number'', JNum (of_int (orderNumber x))),
           (''quote_id'', JStr (quoteId x)),
           (''type'', JStr (order_type x)),
           (''base'', JStr (base x)),
           (''asset'', JStr (asset x)),
           (''fiat_amount'', JNum (fiatAmount x)),
           (''amount'', JNum (fiatAmount x)),
           (''crypto_amount'', JNum (cryptoAmount x)),
           (''exchange_rate'', JNum (exchangeRate x)),
           (''fee'', JNum (fee x)),
           (''status'', JStr (status x)),
           (''reference'', JStr (String_int (orderNumber x))),
           (''iban'', JNull),
           (''payment_id'', (case paymentId x of None \<Rightarrow> JNull | Some p \<Rightarrow> JStr p)),
           (''created_at'', JNum (of_nat (createdAt x))),
           (''updated_at'', JNum (of_nat (updatedAt x)))]"

definition getOrder :: "chance \<Rightarrow> request \<Rightarrow> world \<Rightarrow> outcome \<times> world" where
  "getOrder ch req w =
     (case acting_userId ch req w of
        (Inl e, w1) \<Rightarrow>
          (Responded 500 (JObj [(''error'', JStr ''Failed to get order''),
                                (''message'', JStr (message e))]), w1)
      | (Inr uid, w1) \<Rightarrow>
          (case orderRepository_findById ch (req_params_id req) w1 of
             Inl e \<Rightarrow>
               (Responded 500 (JObj [(''error'', JStr ''Failed to get order''),
                                     (''message'', JStr (message e))]), w1)
           | Inr None \<Rightarrow> (Responded 404 (JObj [(''error'', JStr ''Order not found'')]), w1)
           | Inr (Some x) \<Rightarrow>
               if userId x \<noteq> uid
               then (Responded 403 (JObj [(''error'', JStr ''Access denied'')]), w1)
               else (Responded 200 (order_projection x), w1)))"

text \<open>
  \<open>getUserOrders\<close> (lines 138 to 153). The order objects are serialised as they are,
  under the property names the controller reads them by.
\<close>

definition order_json :: "order \<Rightarrow> json" where
  "order_json x =
     JObj [(''id'', JStr (order_id x)),
           (''orderNumber'', JNum (of_int (orderNumber x))),
           (''userId'', JStr (userId x)),
           (''quoteId'', JStr (quoteId x)),
           (''type'', JStr (order_type x)),
           (''base'', JStr (base x)),
           (''asset'', JStr (asset x)),
           (''fiatAmount'', JNum (fiatAmount x)),
           (''cryptoAmount'', JNum (cryptoAmount x)),
           (''exchangeRate'', JNum (exchangeRate x)),
           (''fee'', JNum (fee x)),
           (''status'', JStr (status x)),
           (''paymentId'', (case paymentId x of None \<Rightarrow> JNull | Some p \<Rightarrow> JStr p)),
           (''createdAt'', JNum (of_nat (createdAt x))),
           (''updatedAt'', JNum (of_nat (updatedAt x)))]"

definition getUserOrders :: "chance \<Rightarrow> request \<Rightarrow> world \<Rightarrow> outcome \<times> world" where
  "getUserOrders ch req w =
     (case acting_userId ch req w of
        (Inl e, w1) \<Rightarrow>
          (Responded 500 (JObj [(''error'', JStr ''Failed to get orders''),
                                (''message'', JStr (message e))]), w1)
      | (Inr uid, w1) \<Rightarrow>
          (case orderRepository_findByUserId ch uid w1 of
             Inl e \<Rightarrow>
               (Responded 500 (JObj [(''error'', JStr ''Failed to get orders''),
                                     (''message'', JStr (message e))]), w1)
           | Inr orders \<Rightarrow>
               (Responded 200 (JObj [(''orders'', JArr (map order_json orders))]), w1)))"

text \<open>Reading a property of a response body.\<close>

fun property :: "json \<Rightarrow> string \<Rightarrow> json option" where
  "property (JObj kvs) k = map_of kvs k"
| "property _ k = None"


text \<open>
  Order creations one after the other, each handled by some process: the request, what
  it draws, and the cache of the process that handles it.
\<close>

fun createOrder_each :: "(chance \<times> request \<times> string option) list \<Rightarrow> world \<Rightarrow> outcome list \<times> world" where
  "createOrder_each [] w = ([], w)"
| "createOrder_each (step # steps) w =
     (case step of (ch, req, cache) \<Rightarrow>
        (case createOrder ch req (w\<lparr>cachedAnonymousUserId := cache\<rparr>) of
           (r, w1) \<Rightarrow> (case createOrder_each steps w1 of (rs, w2) \<Rightarrow> (r # rs, w2))))"


section \<open>server.ts\<close>

text \<open>
  The error-handling middleware (lines 86 to 97). \<open>message: undefined\<close> is dropped when
  the body is serialised.
\<close>

definition error_middleware :: "world \<Rightarrow> error \<Rightarrow> outcome" where
  "error_middleware w err =
     Responded 500
       (JObj ((''error'', JStr ''Internal server error'') #
              (if NODE_ENV w = Some ''development'' then [(''message'', JStr (message err))] else [])))"

section \<open>The order-number migration\<close>

text \<open>
  The SQL that follows \<open>getOrCreateAnonymousUserId\<close> in user.repository.ts (lines 47
  to 62) retrofits order numbers onto the \<open>orders\<close> table. What it reads and writes:
  the sequence \<open>order_number_seq\<close> (absent, or the last value it handed out, 0 before
  the first \<open>nextval\<close>), the column \<open>order_number\<close> with its \<open>NOT NULL\<close>
  constraint, unique index and default, and the rows as pairs of \<open>id\<close> and
  \<open>order_number\<close> (\<open>None\<close> is \<open>NULL\<close>).
\<close>

record orders_table =
  seq_value :: "int option"
  has_column :: bool
  column_not_null :: bool
  unique_index :: bool
  column_default :: bool
  table_rows :: "(string \<times> int option) list"

text \<open>The six statements, in the order of the file: lines 48, 50, 53 to 56, 58, 60 and 62.\<close>

datatype migration_statement =
  CREATE_SEQUENCE | ADD_COLUMN | BACKFILL | SET_NOT_NULL | CREATE_UNIQUE_INDEX | SET_DEFAULT


text \<open>
  \<open>numbered\<close> is the common table expression of line 54: one \<open>nextval\<close> for each row
  whose \<open>order_number\<close> is \<open>NULL\<close>. \<open>update_from\<close> is the \<open>UPDATE ... FROM numbered
  WHERE orders.id = numbered.id\<close> of line 56.
\<close>

definition numbered :: "int \<Rightarrow> (string \<times> int option) list \<Rightarrow> (string \<times> int) list" where
  "numbered v rows =
     (let ids = map fst (filter (\<lambda>r. snd r = None) rows)
      in zip ids [v + 1 .. v + int (length ids)])"

definition update_from :: "(string \<times> int) list \<Rightarrow> (string \<times> int option) list \<Rightarrow> (string \<times> int option) list" where
  "update_from nb rows =
     map (\<lambda>r. case map_of nb (fst r) of Some n \<Rightarrow> (fst r, Some n) | None \<Rightarrow> r) rows"

definition assigned :: "(string \<times> int option) list \<Rightarrow> int list" where
  "assigned rows = concat (map (\<lambda>r. case snd r of None \<Rightarrow> [] | Some n \<Rightarrow> [n]) rows)"

fun run_statement :: "migration_statement \<Rightarrow> orders_table \<Rightarrow> error + orders_table" where
  "run_statement CREATE_SEQUENCE t =
     Inr (case seq_value t of None \<Rightarrow> t\<lparr>seq_value := Some 0\<rparr> | Some v \<Rightarrow> t)"
| "run_statement ADD_COLUMN t =
     Inr (if has_column t then t
          else t\<lparr>has_column := True, table_rows := map (\<lambda>r. (fst r, None)) (table_rows t)\<rparr>)"
| "run_statement BACKFILL t =
     (case seq_value t of
        None \<Rightarrow> Inl (Error ''relation order_number_seq does not exist'')
      | Some v \<Rightarrow>
          if \<not> has_column t then Inl (Error ''column order_number does not exist'')
          else (let nb = numbered v (table_rows t)
                in Inr (t\<lparr>table_rows := update_from nb (table_rows t),
                          seq_value := Some (v + int (length nb))\<rparr>)))"
| "run_statement SET_NOT_NULL t =
     (if \<not> has_column t then Inl (Error ''column order_number does not exist'')
      else if None \<in> set (map snd (table_rows t))
      then Inl (Error ''column order_number contains null values'')
      else Inr (t\<lparr>column_not_null := True\<rparr>))"
| "run_statement CREATE_UNIQUE_INDEX t =
     (if unique_index t then Inr t
      else if \<not> has_column t then Inl (Error ''column order_number does not exist'')
      else if \<not> distinct (assigned (table_rows t))
      then Inl (Error ''could not create unique index orders_order_number_idx'')
      else Inr (t\<lparr>unique_index := True\<rparr>))"
| "run_statement SET_DEFAULT t =
     (case seq_value t of
        None \<Rightarrow> Inl (Error ''relation order_number_seq does not exist'')
      | Some v \<Rightarrow>
          if \<not> has_column t then Inl (Error ''column order_number does not exist'')
          else Inr (t\<lparr>column_default := True\<rparr>))"

text \<open>The statements run one after the other; the first error stops the run.\<close>

fun run_migration :: "migration_statement list \<Rightarrow> orders_table \<Rightarrow> error + orders_table" where
  "run_migration [] t = Inr t"
| "run_migration (s # ss) t =
     (case run_statement s t of Inl e \<Rightarrow> Inl e | Inr t' \<Rightarrow> run_migration ss t')"






section \<open>Invariants and example inputs\<close>

text \<open>
  Ids are UUIDs (\<open>gen_random_uuid()\<close>, \<open>uuidv4()\<close>), so never the empty string: the
  only string JavaScript treats as false.
\<close>

definition ids_ok :: "world \<Rightarrow> bool" where
  "ids_ok w = ([] \<notin> set (map user_id (users (db w))))"

definition has_anonymous :: "world \<Rightarrow> bool" where
  "has_anonymous w = (filter (\<lambda>u. email u = ANONYMOUS_EMAIL) (users (db w)) \<noteq> [])"

text \<open>
  A request on which every call completes; the quote \<open>Q1\<close> of the spec's scenario;
  a pricing service that knows it; a process that has just started on an empty database.
\<close>

definition calm :: chance where
  "calm = \<lparr>fate_of = (\<lambda>_. Completes), gen_random_uuid = ''9b2f-anon'', uuidv4 = ''41c7-order'',
            client = 1, now = 1000\<rparr>"

definition Q1 :: quote where
  "Q1 = \<lparr>quote_base = ''EUR'', quote_asset = ''BTC'', quote_amount = 100,
          quote_cryptoAmount = 2 / 1000, quote_exchangeRate = 50000, quote_fee = 1\<rparr>"

definition quotes_Q1 :: pricingService where
  "quotes_Q1 = \<lparr>validateQuote = (\<lambda>q. q = ''Q1''),
                getQuote = (\<lambda>q. if q = ''Q1'' then Some Q1 else None)\<rparr>"

definition fresh_world :: world where
  "fresh_world =
     \<lparr>db = \<lparr>users = [], order_tuples = [], order_number_seq = 0, open_tx = []\<rparr>,
      pricing = quotes_Q1, cachedAnonymousUserId = None, NODE_ENV = Some ''production'',
      anonymous_queries = 0, clients_out = 0\<rparr>"

text \<open>The object literal of order.controller.ts, lines 48 to 60, on its own.\<close>

definition order_of_quote :: "string \<Rightarrow> string \<Rightarrow> string \<Rightarrow> quote \<Rightarrow> order_fields" where
  "order_of_quote orderId uid quote_id q =
     \<lparr>order_id = orderId, userId = uid, quoteId = quote_id, order_type = ''buy'',
      base = quote_base q, asset = quote_asset q, fiatAmount = quote_amount q,
      cryptoAmount = quote_cryptoAmount q, exchangeRate = quote_exchangeRate q,
      fee = quote_fee q, status = QUOTE_LOCKED\<rparr>"

text \<open>
  The scenario of the spec: an authenticated caller buys with \<open>Q1\<close>, then reads the
  order; another caller reads it, and reads an order that does not exist; a caller
  with no identity posts a body without \<open>quote_id\<close>. A pricing service in which
  every quote has expired and gone. Requests on which the insert, the identity
  resolution or the read is rejected, and on which the connection is lost so that the
  following \<open>ROLLBACK\<close> is rejected too.
\<close>

definition alice_buys_Q1 :: request where
  "alice_buys_Q1 = \<lparr>req_user = Some ''alice'', req_quote_id = Some ''Q1'', req_params_id = []\<rparr>"

definition after_alice :: world where
  "after_alice = snd (createOrder calm alice_buys_Q1 fresh_world)"

definition alice_reads :: request where
  "alice_reads = \<lparr>req_user = Some ''alice'', req_quote_id = None, req_params_id = ''41c7-order''\<rparr>"

definition bob_reads :: request where
  "bob_reads = \<lparr>req_user = Some ''bob'', req_quote_id = None, req_params_id = ''41c7-order''\<rparr>"

definition bob_reads_other :: request where
  "bob_reads_other = \<lparr>req_user = Some ''bob'', req_quote_id = None, req_params_id = ''0000-none''\<rparr>"

definition nobody_no_quote :: request where
  "nobody_no_quote = \<lparr>req_user = None, req_quote_id = None, req_params_id = []\<rparr>"

definition no_quotes :: pricingService where
  "no_quotes = \<lparr>validateQuote = (\<lambda>q. False), getQuote = (\<lambda>q. None)\<rparr>"

definition insert_fails :: chance where
  "insert_fails = calm\<lparr>fate_of := (fate_of calm)
     (Create := Rejects (Error ''connect ECONNREFUSED 10.0.0.5:5432''))\<rparr>"

definition resolve_fails :: chance where
  "resolve_fails = calm\<lparr>fate_of := (fate_of calm)
     (Resolve := Rejects (Error ''connect ECONNREFUSED 10.0.0.5:5432''))\<rparr>"

definition read_fails :: chance where
  "read_fails = calm\<lparr>fate_of := (fate_of calm)
     (FindById := Rejects (Error ''relation orders does not exist''),
      FindByUserId := Rejects (Error ''relation orders does not exist''))\<rparr>"

definition connection_lost :: chance where
  "connection_lost = calm\<lparr>fate_of := (fate_of calm)
     (Create := Rejects (Error ''Connection terminated unexpectedly''),
      Query ROLLBACK := Rejects (Error ''Client has encountered a connection error and is not queryable''))\<rparr>"

text \<open>
  A store as it was before the migration, with three orders, and a store whose
  numbering starts at the counter's starting point \<open>s0\<close>: every row version ever
  written carries the next number after the one before it.
\<close>

definition three_orders :: orders_table where
  "three_orders =
     \<lparr>seq_value = None, has_column = False, column_not_null = False, unique_index = False,
      column_default = False, table_rows = [(''a'', None), (''b'', None), (''c'', None)]\<rparr>"

definition numbered_from :: "int \<Rightarrow> database \<Rightarrow> bool" where
  "numbered_from s0 d =
     (s0 \<le> order_number_seq d \<and>
      map (\<lambda>t. orderNumber (fst t)) (order_tuples d) = [s0 + 1 .. order_number_seq d])"

definition empty_store :: database where
  "empty_store = \<lparr>users = [], order_tuples = [], order_number_seq = 0, open_tx = []\<rparr>"

definition two_buyers :: "store_op list" where
  "two_buyers =
     [Transaction 1 BEGIN, Transaction 2 BEGIN,
      Insert 1 1000 (order_of_quote ''o-1'' ''alice'' ''Q1'' Q1),
      Insert 2 1000 (order_of_quote ''o-2'' ''bob'' ''Q1'' Q1),
      Transaction 2 COMMIT, Transaction 1 ROLLBACK,
      Insert 3 1001 (order_of_quote ''o-3'' ''carol'' ''Q1'' Q1)]"


chapter \<open>Properties\<close>

section \<open>The anonymous identity resolver\<close>

lemma resolver_hit:
  "cachedAnonymousUserId w = Some c \<Longrightarrow> c \<noteq> [] \<Longrightarrow> getOrCreateAnonymousUserId ch w = (Inr c, w)"
  by (simp add: getOrCreateAnonymousUserId_def getOrCreateAnonymousUserId_via_def)

lemma resolve_each_hit:
  "cachedAnonymousUserId w = Some c \<Longrightarrow> c \<noteq> [] \<Longrightarrow>
   resolve_each chs w = (replicate (length chs) (Inr c), w)"
  by (induction chs) (simp_all add: resolver_hit)

lemma resolve_each_append:
  "resolve_each (pre @ post) w =
     (case resolve_each pre w of (rs, w1) \<Rightarrow>
        (case resolve_each post w1 of (rs', w2) \<Rightarrow> (rs @ rs', w2)))"
  by (induction pre arbitrary: w) (auto split: prod.splits)

lemma statement_rows:
  "anonymous_user_statement fresh us = (Inr rows, us') \<Longrightarrow> fresh \<noteq> [] \<Longrightarrow> [] \<notin> set (map user_id us) \<Longrightarrow>
   (\<exists>i. rows = [i] \<and> i \<noteq> []) \<and> [] \<notin> set (map user_id us')"
  apply (auto simp: anonymous_user_statement_def Let_def split: if_splits)
  subgoal by (cases "filter (\<lambda>u. email u = ANONYMOUS_EMAIL) us") (auto simp: filter_eq_Cons_iff)
  done

lemma statement_users:
  "anonymous_user_statement fresh us = (res, us') \<Longrightarrow>
   us' = us \<or> (filter (\<lambda>u. email u = ANONYMOUS_EMAIL) us = [] \<and> us' = us @ [\<lparr>user_id = fresh, email = ANONYMOUS_EMAIL\<rparr>])"
  by (auto simp: anonymous_user_statement_def Let_def split: if_splits)

lemma statement_users_present:
  "filter (\<lambda>u. email u = ANONYMOUS_EMAIL) us \<noteq> [] \<Longrightarrow> snd (anonymous_user_statement fresh us) = us"
  by (auto simp: anonymous_user_statement_def Let_def split: if_splits)


lemma pool_query_users:
  "pool_query_anonymous ch w = (res, w1) \<Longrightarrow>
   cachedAnonymousUserId w1 = cachedAnonymousUserId w \<and>
   anonymous_queries w1 = anonymous_queries w + 1 \<and>
   (users (db w1) = users (db w) \<or>
    (\<not> has_anonymous w \<and> users (db w1) = users (db w) @ [\<lparr>user_id = gen_random_uuid ch, email = ANONYMOUS_EMAIL\<rparr>]))"
  by (auto simp: pool_query_anonymous_def Let_def has_anonymous_def
           split: fate.splits prod.splits dest: statement_users)

lemma pool_query_rows:
  "pool_query_anonymous ch w = (Inr rows, w1) \<Longrightarrow> gen_random_uuid ch \<noteq> [] \<Longrightarrow> ids_ok w \<Longrightarrow>
   (\<exists>i. rows = [i] \<and> i \<noteq> []) \<and> ids_ok w1"
  by (auto simp: pool_query_anonymous_def Let_def ids_ok_def
           split: fate.splits prod.splits dest!: statement_rows)

lemma pool_query_ids_ok:
  "pool_query_anonymous ch w = (res, w1) \<Longrightarrow> gen_random_uuid ch \<noteq> [] \<Longrightarrow> ids_ok w \<Longrightarrow> ids_ok w1"
  by (auto simp: ids_ok_def dest!: pool_query_users)

lemma resolver_cases:
  assumes "getOrCreateAnonymousUserId ch w = (r, w1)"
  shows "(\<exists>c. cachedAnonymousUserId w = Some c \<and> c \<noteq> [] \<and> r = Inr c \<and> w1 = w) \<or>
   (\<not> truthy (cachedAnonymousUserId w) \<and>
      ((\<exists>e. pool_query_anonymous ch w = (Inl e, w1) \<and> r = Inl e) \<or>
       (pool_query_anonymous ch w = (Inr [], w1) \<and>
          r = Inl (Error ''Failed to get or create anonymous user'')) \<or>
       (\<exists>i rest w'. pool_query_anonymous ch w = (Inr (i # rest), w') \<and> r = Inr i \<and>
          w1 = w'\<lparr>cachedAnonymousUserId := Some i\<rparr>)))"
  using assms
  by (auto simp: getOrCreateAnonymousUserId_def getOrCreateAnonymousUserId_via_def truthy_def
           split: option.splits if_splits prod.splits sum.splits list.splits)

lemma ids_ok_cache [simp]: "ids_ok (w\<lparr>cachedAnonymousUserId := x\<rparr>) = ids_ok w"
  by (simp add: ids_ok_def)

lemma has_anonymous_cache [simp]: "has_anonymous (w\<lparr>cachedAnonymousUserId := x\<rparr>) = has_anonymous w"
  by (simp add: has_anonymous_def)

lemma resolver_success:
  assumes "getOrCreateAnonymousUserId ch w = (Inr i, w1)" "ids_ok w" "gen_random_uuid ch \<noteq> []"
  shows "cachedAnonymousUserId w1 = Some i \<and> i \<noteq> []"
  using resolver_cases[OF assms(1)] assms(2,3)
  by (auto dest!: pool_query_rows)

lemma resolver_ids_ok:
  assumes "getOrCreateAnonymousUserId ch w = (r, w1)" "ids_ok w" "gen_random_uuid ch \<noteq> []"
  shows "ids_ok w1"
  using resolver_cases[OF assms(1)] assms(2,3)
  by (auto dest: pool_query_ids_ok)

lemma resolver_users:
  assumes "getOrCreateAnonymousUserId ch w = (r, w1)"
  shows "users (db w1) = users (db w) \<or>
         (\<not> has_anonymous w \<and> has_anonymous w1 \<and> length (users (db w1)) = length (users (db w)) + 1)"
  using resolver_cases[OF assms(1)]
  by (auto dest!: pool_query_users simp: has_anonymous_def)

lemma resolve_each_ids_ok:
  "resolve_each chs w = (rs, w1) \<Longrightarrow> ids_ok w \<Longrightarrow> [] \<notin> set (map gen_random_uuid chs) \<Longrightarrow> ids_ok w1"
proof (induction chs arbitrary: w rs w1)
  case Nil
  then show ?case by simp
next
  case (Cons ch chs)
  obtain r w' where step: "getOrCreateAnonymousUserId ch w = (r, w')" by (cases "getOrCreateAnonymousUserId ch w")
  obtain rs' w'' where rest: "resolve_each chs w' = (rs', w'')" by (cases "resolve_each chs w'")
  from Cons.prems step rest have "w1 = w''" by simp
  moreover have "ids_ok w'" using resolver_ids_ok[OF step] Cons.prems by auto
  ultimately show ?case using Cons.IH[OF rest] Cons.prems by auto
qed

lemma resolve_each_last:
  "resolve_each chs w = (rs, w1) \<Longrightarrow> chs \<noteq> [] \<Longrightarrow> last rs = Inr i \<Longrightarrow>
   ids_ok w \<Longrightarrow> [] \<notin> set (map gen_random_uuid chs) \<Longrightarrow>
   cachedAnonymousUserId w1 = Some i \<and> i \<noteq> []"
proof (induction chs arbitrary: w rs w1)
  case Nil
  then show ?case by simp
next
  case (Cons ch chs)
  obtain r w' where step: "getOrCreateAnonymousUserId ch w = (r, w')" by (cases "getOrCreateAnonymousUserId ch w")
  obtain rs' w'' where rest: "resolve_each chs w' = (rs', w'')" by (cases "resolve_each chs w'")
  from Cons.prems(1) step rest have eq: "rs = r # rs'" "w1 = w''" by auto
  have ok': "ids_ok w'" using resolver_ids_ok[OF step] Cons.prems by auto
  show ?case
  proof (cases "chs = []")
    case True
    with rest have "rs' = []" "w'' = w'" by auto
    with eq Cons.prems(3) have "r = Inr i" by simp
    with resolver_success[of ch w i w'] step Cons.prems True eq \<open>w'' = w'\<close> show ?thesis by auto
  next
    case False
    with rest have "rs' \<noteq> []" by (cases chs) (auto split: prod.splits)
    with eq Cons.prems(3) have "last rs' = Inr i" by simp
    with Cons.IH[OF rest False _ ok'] Cons.prems eq show ?thesis by auto
  qed
qed

lemma resolve_each_same:
  "resolve_each chs w = (rs, w1) \<Longrightarrow> ids_ok w \<Longrightarrow> [] \<notin> set (map gen_random_uuid chs) \<Longrightarrow>
   \<exists>i. set rs \<subseteq> insert (Inr i) (range Inl)"
proof (induction chs arbitrary: w rs w1)
  case Nil
  then show ?case by simp
next
  case (Cons ch chs)
  obtain r w' where step: "getOrCreateAnonymousUserId ch w = (r, w')" by (cases "getOrCreateAnonymousUserId ch w")
  obtain rs' w'' where rest: "resolve_each chs w' = (rs', w'')" by (cases "resolve_each chs w'")
  from Cons.prems(1) step rest have eq: "rs = r # rs'" by auto
  have ok': "ids_ok w'" using resolver_ids_ok[OF step] Cons.prems by auto
  show ?case
  proof (cases r)
    case (Inl e)
    from Cons.IH[OF rest ok'] Cons.prems obtain i where "set rs' \<subseteq> insert (Inr i) (range Inl)" by auto
    with eq Inl show ?thesis by auto
  next
    case (Inr i)
    with resolver_success[of ch w i w'] step Cons.prems
    have "cachedAnonymousUserId w' = Some i" "i \<noteq> []" by auto
    from resolve_each_hit[OF this, of chs] rest have "rs' = replicate (length chs) (Inr i)" by simp
    with eq Inr show ?thesis by auto
  qed
qed

lemma resolve_each_users:
  "resolve_each chs w = (rs, w1) \<Longrightarrow>
   (has_anonymous w \<longrightarrow> users (db w1) = users (db w)) \<and>
   length (users (db w1)) \<le> length (users (db w)) + 1"
proof (induction chs arbitrary: w rs w1)
  case Nil
  then show ?case by simp
next
  case (Cons ch chs)
  obtain r w' where step: "getOrCreateAnonymousUserId ch w = (r, w')" by (cases "getOrCreateAnonymousUserId ch w")
  obtain rs' w'' where rest: "resolve_each chs w' = (rs', w'')" by (cases "resolve_each chs w'")
  from Cons.prems(1) step rest have eq: "w1 = w''" by auto
  from Cons.IH[OF rest] resolver_users[OF step] eq show ?case by (auto simp: has_anonymous_def)
qed

lemmas resolver_defs = getOrCreateAnonymousUserId_def getOrCreateAnonymousUserId_via_def
  pool_query_anonymous_def anonymous_user_statement_def ANONYMOUS_EMAIL_def truthy_def

text \<open>
  C10. Every execution of \<open>getOrCreateAnonymousUserId\<close> that fails does so because the
  query threw (the same error is rethrown) or yielded zero rows (the error
  \<open>Failed to get or create anonymous user\<close>). The function has then assigned nothing:
  the world it leaves is the one the query left, the cache is what it was before the
  call, and it was not set (a set cache never reaches the query). A failed resolution
  is therefore not cached, and the next call, whatever its fate, sends the statement
  to the database again. The pool is any function that leaves the module variable alone.
\<close>

theorem failed_resolution_is_not_cached:
  assumes "pool_query w = (res, w1)"
      and "cachedAnonymousUserId w1 = cachedAnonymousUserId w"
      and "fst (getOrCreateAnonymousUserId_via pool_query w) = Inl err"
  shows "(res = Inl err \<or> (res = Inr [] \<and> err = Error ''Failed to get or create anonymous user'')) \<and>
         snd (getOrCreateAnonymousUserId_via pool_query w) = w1 \<and>
         cachedAnonymousUserId (snd (getOrCreateAnonymousUserId_via pool_query w)) = cachedAnonymousUserId w \<and>
         \<not> truthy (cachedAnonymousUserId w) \<and>
         (\<forall>ch. anonymous_queries (snd (getOrCreateAnonymousUserId ch (snd (getOrCreateAnonymousUserId_via pool_query w))))
               = anonymous_queries (snd (getOrCreateAnonymousUserId_via pool_query w)) + 1)"
proof -
  from assms have miss: "\<not> truthy (cachedAnonymousUserId w)"
    by (auto simp: getOrCreateAnonymousUserId_via_def truthy_def split: option.splits if_splits)
  from assms have out: "(res = Inl err \<or> (res = Inr [] \<and> err = Error ''Failed to get or create anonymous user''))
      \<and> snd (getOrCreateAnonymousUserId_via pool_query w) = w1"
    by (auto simp: getOrCreateAnonymousUserId_via_def split: option.splits if_splits sum.splits list.splits)
  have again: "anonymous_queries (snd (getOrCreateAnonymousUserId ch w1)) = anonymous_queries w1 + 1" for ch
  proof -
    from miss assms(2) have "\<not> truthy (cachedAnonymousUserId w1)" by simp
    then show ?thesis
      by (auto simp: getOrCreateAnonymousUserId_def getOrCreateAnonymousUserId_via_def
                     pool_query_anonymous_def Let_def truthy_def
               split: option.splits fate.splits prod.splits sum.splits list.splits)
  qed
  from miss out again assms(2) show ?thesis by simp
qed

theorem failed_resolution_is_not_cached_witness:
  "getOrCreateAnonymousUserId_via (\<lambda>w. (Inr [], w)) fresh_world
     = (Inl (Error ''Failed to get or create anonymous user''), fresh_world) \<and>
   cachedAnonymousUserId (snd (getOrCreateAnonymousUserId_via (\<lambda>w. (Inr [], w)) fresh_world)) = None \<and>
   anonymous_queries (snd (getOrCreateAnonymousUserId calm
       (snd (getOrCreateAnonymousUserId_via (\<lambda>w. (Inr [], w)) fresh_world)))) = 1"
  using failed_resolution_is_not_cached [of "\<lambda>w. (Inr [], w)" fresh_world "Inr []" fresh_world
          "Error ''Failed to get or create anonymous user''"]
  by (simp add: getOrCreateAnonymousUserId_via_def fresh_world_def)

text \<open>
  C6. \<open>N\<close> awaited calls of the resolver in one process, whatever the fate of each
  call: every call that returns, returns the same id; the \<open>users\<close> table grows by at
  most one row over all the calls; once a call has returned an id, every later call
  returns that id and leaves the world, the database and the count of statements sent
  as they were; in particular when the first call returns an id, all \<open>N\<close> calls return
  it and at most one statement was sent. Ids are non-empty, as UUIDs are.
\<close>

theorem resolution_is_idempotent_in_process:
  assumes "resolve_each chs w = (rs, w1)"
      and "ids_ok w"
      and "[] \<notin> set (map gen_random_uuid chs)"
  shows "(\<exists>i. set rs \<subseteq> insert (Inr i) (range Inl)) \<and>
         length (users (db w1)) \<le> length (users (db w)) + 1 \<and>
         (\<forall>pre post i. chs = pre @ post \<and> pre \<noteq> [] \<and> last (fst (resolve_each pre w)) = Inr i \<longrightarrow>
            rs = fst (resolve_each pre w) @ replicate (length post) (Inr i) \<and>
            w1 = snd (resolve_each pre w)) \<and>
         (\<forall>ch rest i. chs = ch # rest \<and> fst (getOrCreateAnonymousUserId ch w) = Inr i \<longrightarrow>
            rs = replicate (length chs) (Inr i) \<and>
            w1 = snd (getOrCreateAnonymousUserId ch w) \<and>
            anonymous_queries w1 \<le> anonymous_queries w + 1)"
proof -
  have same: "\<exists>i. set rs \<subseteq> insert (Inr i) (range Inl)"
    using resolve_each_same[OF assms] .
  have once: "length (users (db w1)) \<le> length (users (db w)) + 1"
    using resolve_each_users[OF assms(1)] by simp
  have after: "rs = fst (resolve_each pre w) @ replicate (length post) (Inr i) \<and>
               w1 = snd (resolve_each pre w)"
    if split: "chs = pre @ post" and ne: "pre \<noteq> []" and ok: "last (fst (resolve_each pre w)) = Inr i"
    for pre post i
  proof -
    obtain rs0 w0 where pre: "resolve_each pre w = (rs0, w0)" by (cases "resolve_each pre w")
    from assms(3) split have "[] \<notin> set (map gen_random_uuid pre)" by auto
    from resolve_each_last[OF pre ne _ assms(2) this] ok pre
    have "cachedAnonymousUserId w0 = Some i" "i \<noteq> []" by auto
    from resolve_each_hit[OF this, of post]
    have "resolve_each post w0 = (replicate (length post) (Inr i), w0)" .
    with assms(1) split pre show ?thesis by (simp add: resolve_each_append)
  qed
  have first: "rs = replicate (length chs) (Inr i) \<and> w1 = snd (getOrCreateAnonymousUserId ch w) \<and>
               anonymous_queries w1 \<le> anonymous_queries w + 1"
    if split: "chs = ch # rest" and ok: "fst (getOrCreateAnonymousUserId ch w) = Inr i"
    for ch rest i
  proof -
    obtain r w0 where step: "getOrCreateAnonymousUserId ch w = (r, w0)"
      by (cases "getOrCreateAnonymousUserId ch w")
    with ok have r: "r = Inr i" by simp
    from split have "chs = [ch] @ rest" by simp
    from after[OF this] step r
    have "rs = Inr i # replicate (length rest) (Inr i)" "w1 = w0" by auto
    moreover from resolver_cases[OF step]
    have "anonymous_queries w0 \<le> anonymous_queries w + 1"
      by (auto dest!: pool_query_users)
    ultimately show ?thesis using split step by simp
  qed
  have c3: "\<forall>pre post i. chs = pre @ post \<and> pre \<noteq> [] \<and> last (fst (resolve_each pre w)) = Inr i \<longrightarrow>
            rs = fst (resolve_each pre w) @ replicate (length post) (Inr i) \<and>
            w1 = snd (resolve_each pre w)"
    using after by (intro allI impI) (elim conjE)
  have c4: "\<forall>ch rest i. chs = ch # rest \<and> fst (getOrCreateAnonymousUserId ch w) = Inr i \<longrightarrow>
            rs = replicate (length chs) (Inr i) \<and>
            w1 = snd (getOrCreateAnonymousUserId ch w) \<and>
            anonymous_queries w1 \<le> anonymous_queries w + 1"
    using first by (intro allI impI) (elim conjE)
  show ?thesis
    by (rule conjI [OF same conjI [OF once conjI [OF c3 c4]]])
qed

theorem resolution_is_idempotent_in_process_witness:
  "ids_ok fresh_world \<and>
   fst (resolve_each [calm, calm, calm] fresh_world)
     = [Inr ''9b2f-anon'', Inr ''9b2f-anon'', Inr ''9b2f-anon''] \<and>
   anonymous_queries (snd (resolve_each [calm, calm, calm] fresh_world)) \<le> 1 \<and>
   length (users (db (snd (resolve_each [calm, calm, calm] fresh_world)))) \<le> 1"
proof -
  let ?run = "resolve_each [calm, calm, calm] fresh_world"
  have run: "?run = (fst ?run, snd ?run)"
    by (rule surjective_pairing)
  have ok: "ids_ok fresh_world"
    by (simp add: ids_ok_def fresh_world_def)
  have uuids: "[] \<notin> set (map gen_random_uuid [calm, calm, calm])"
    by (simp add: calm_def)
  have first: "[calm, calm, calm] = calm # [calm, calm] \<and>
               fst (getOrCreateAnonymousUserId calm fresh_world) = Inr ''9b2f-anon''"
    by (simp add: resolver_defs calm_def fresh_world_def)
  have q: "anonymous_queries fresh_world + 1 = 1" and u: "length (users (db fresh_world)) + 1 = 1"
    by (simp_all add: fresh_world_def)
  note all = resolution_is_idempotent_in_process [OF run ok uuids]
  note once = all [THEN conjunct2, THEN conjunct1]
  note same = all [THEN conjunct2, THEN conjunct2, THEN conjunct2, rule_format, OF first]
  have "fst ?run = [Inr ''9b2f-anon'', Inr ''9b2f-anon'', Inr ''9b2f-anon'']"
    unfolding same [THEN conjunct1] by (simp add: numeral_3_eq_3)
  moreover have "anonymous_queries (snd ?run) \<le> 1"
    using same [THEN conjunct2, THEN conjunct2] unfolding q .
  moreover have "length (users (db (snd ?run))) \<le> 1"
    using once unfolding u .
  ultimately show ?thesis using ok by (intro conjI)
qed

section \<open>The order controller\<close>

lemma pool_query_frame:
  assumes "pool_query_anonymous ch w = (res, w1)"
  shows "order_tuples (db w1) = order_tuples (db w) \<and>
         order_number_seq (db w1) = order_number_seq (db w) \<and>
         open_tx (db w1) = open_tx (db w) \<and>
         pricing w1 = pricing w \<and> NODE_ENV w1 = NODE_ENV w \<and> clients_out w1 = clients_out w \<and>
         (users (db w1) = users (db w) \<or>
          users (db w1) = users (db w) @ [\<lparr>user_id = gen_random_uuid ch, email = ANONYMOUS_EMAIL\<rparr>])"
  using assms
  by (auto simp: pool_query_anonymous_def Let_def split: fate.splits prod.splits dest!: statement_users)

lemma resolver_frame:
  assumes "getOrCreateAnonymousUserId ch w = (r, w1)"
  shows "order_tuples (db w1) = order_tuples (db w) \<and>
         order_number_seq (db w1) = order_number_seq (db w) \<and>
         open_tx (db w1) = open_tx (db w) \<and>
         pricing w1 = pricing w \<and> NODE_ENV w1 = NODE_ENV w \<and> clients_out w1 = clients_out w \<and>
         (users (db w1) = users (db w) \<or>
          users (db w1) = users (db w) @ [\<lparr>user_id = gen_random_uuid ch, email = ANONYMOUS_EMAIL\<rparr>])"
  using resolver_cases[OF assms]
  by (elim disjE exE conjE) (auto dest!: pool_query_frame)

lemma acting_userId_cases:
  assumes "acting_userId ch req w = (r, w1)"
  shows "(\<exists>u. req_user req = Some u \<and> u \<noteq> [] \<and> r = Inr u \<and> w1 = w) \<or>
         (\<not> truthy (req_user req) \<and> getOrCreateAnonymousUserId ch w = (r, w1))"
  using assms by (auto simp: acting_userId_def truthy_def split: option.splits if_splits)

lemma acting_userId_frame:
  assumes "acting_userId ch req w = (r, w1)"
  shows "order_tuples (db w1) = order_tuples (db w) \<and>
         order_number_seq (db w1) = order_number_seq (db w) \<and>
         open_tx (db w1) = open_tx (db w) \<and>
         pricing w1 = pricing w \<and> NODE_ENV w1 = NODE_ENV w \<and> clients_out w1 = clients_out w \<and>
         (users (db w1) = users (db w) \<or>
          users (db w1) = users (db w) @ [\<lparr>user_id = gen_random_uuid ch, email = ANONYMOUS_EMAIL\<rparr>])"
  using acting_userId_cases[OF assms] by (auto dest!: resolver_frame)

lemma committed_settle:
  "s \<noteq> Committed \<Longrightarrow> filter (\<lambda>t. snd t = Committed) (map (settle c s) ts) = filter (\<lambda>t. snd t = Committed) ts"
  by (induction ts) (auto simp: settle_def)

lemma visible_rollback: "visible_orders (execute c ROLLBACK d) = visible_orders d"
  by (simp add: visible_orders_def committed_settle)

lemma visible_begin: "visible_orders (execute c BEGIN d) = visible_orders d"
  by (simp add: visible_orders_def)

lemma execute_frame:
  "users (execute c s d) = users d \<and> order_number_seq (execute c s d) = order_number_seq d \<and>
   length (order_tuples (execute c s d)) = length (order_tuples d)"
  by (cases s) simp_all

lemmas controller_defs = createOrder_def createOrder_try_def acting_userId_def
  pricingService_validateQuote_def pricingService_getQuote_def client_query_def
  orderRepository_create_def orderRepository_findById_def orderRepository_findByUserId_def
  insert_order_def new_order_def live_ids_def release_def truthy_def settle_def
  getOrder_def getUserOrders_def findById_def visible_orders_def QUOTE_LOCKED_def Let_def

lemmas example_defs = calm_def fresh_world_def alice_buys_Q1_def quotes_Q1_def Q1_def
  String_int_def after_alice_def bob_reads_def bob_reads_other_def
  alice_reads_def nobody_no_quote_def no_quotes_def insert_fails_def connection_lost_def
  resolve_fails_def read_fails_def

text \<open>
  C7. \<open>getOrder\<close>, once the acting identity is resolved (the authenticated id when it
  is a non-empty string, the anonymous identity otherwise): when the repository finds
  no order with the id the response is 404 \<open>Order not found\<close>; when it finds one whose
  \<open>userId\<close> is not the resolved identity the response is 403 \<open>Access denied\<close>; the
  order is returned only when its \<open>userId\<close> is the resolved identity. The three cases
  are all the cases, so the ownership test is made on every read, for anonymous
  callers as well.
\<close>

theorem getOrder_checks_existence_and_ownership:
  assumes "acting_userId ch req w = (Inr uid, w1)"
  shows "(orderRepository_findById ch (req_params_id req) w1 = Inr None \<longrightarrow>
            getOrder ch req w = (Responded 404 (JObj [(''error'', JStr ''Order not found'')]), w1)) \<and>
         (\<forall>x. orderRepository_findById ch (req_params_id req) w1 = Inr (Some x) \<and> userId x \<noteq> uid \<longrightarrow>
            getOrder ch req w = (Responded 403 (JObj [(''error'', JStr ''Access denied'')]), w1)) \<and>
         (\<forall>x. orderRepository_findById ch (req_params_id req) w1 = Inr (Some x) \<and> userId x = uid \<longrightarrow>
            getOrder ch req w = (Responded 200 (order_projection x), w1)) \<and>
         (\<forall>u. req_user req = Some u \<and> u \<noteq> [] \<longrightarrow> uid = u \<and> w1 = w) \<and>
         (\<not> truthy (req_user req) \<longrightarrow> getOrCreateAnonymousUserId ch w = (Inr uid, w1))"
proof -
  have c1: "orderRepository_findById ch (req_params_id req) w1 = Inr None \<longrightarrow>
            getOrder ch req w = (Responded 404 (JObj [(''error'', JStr ''Order not found'')]), w1)"
    using assms by (simp add: getOrder_def)
  have c2: "\<forall>x. orderRepository_findById ch (req_params_id req) w1 = Inr (Some x) \<and> userId x \<noteq> uid \<longrightarrow>
            getOrder ch req w = (Responded 403 (JObj [(''error'', JStr ''Access denied'')]), w1)"
    using assms by (simp add: getOrder_def)
  have c3: "\<forall>x. orderRepository_findById ch (req_params_id req) w1 = Inr (Some x) \<and> userId x = uid \<longrightarrow>
            getOrder ch req w = (Responded 200 (order_projection x), w1)"
    using assms by (simp add: getOrder_def)
  have c4: "\<forall>u. req_user req = Some u \<and> u \<noteq> [] \<longrightarrow> uid = u \<and> w1 = w"
    using assms by (auto simp: acting_userId_def)
  have c5: "\<not> truthy (req_user req) \<longrightarrow> getOrCreateAnonymousUserId ch w = (Inr uid, w1)"
    using acting_userId_cases[OF assms] by (auto simp: truthy_def)
  show ?thesis
    by (rule conjI [OF c1 conjI [OF c2 conjI [OF c3 conjI [OF c4 c5]]]])
qed

theorem getOrder_checks_existence_and_ownership_witness:
  "fst (getOrder calm bob_reads after_alice)
     = Responded 403 (JObj [(''error'', JStr ''Access denied'')]) \<and>
   fst (getOrder calm bob_reads_other after_alice)
     = Responded 404 (JObj [(''error'', JStr ''Order not found'')])"
proof -
  have a1: "acting_userId calm bob_reads after_alice = (Inr ''bob'', after_alice)"
    by (simp add: acting_userId_def bob_reads_def)
  have a2: "acting_userId calm bob_reads_other after_alice = (Inr ''bob'', after_alice)"
    by (simp add: acting_userId_def bob_reads_other_def)
  have there: "\<exists>x. orderRepository_findById calm (req_params_id bob_reads) after_alice = Inr (Some x) \<and>
                   userId x \<noteq> ''bob''"
    by (simp add: controller_defs example_defs)
  have absent: "orderRepository_findById calm (req_params_id bob_reads_other) after_alice = Inr None"
    by (simp add: controller_defs example_defs)
  from there obtain x where
    x: "orderRepository_findById calm (req_params_id bob_reads) after_alice = Inr (Some x) \<and> userId x \<noteq> ''bob''"
    by blast
  note denied = getOrder_checks_existence_and_ownership [OF a1, THEN conjunct2, THEN conjunct1, rule_format, OF x]
  note missing = getOrder_checks_existence_and_ownership [OF a2, THEN conjunct1, rule_format, OF absent]
  show ?thesis unfolding denied missing by simp
qed

text \<open>
  C3, as stated, fails. A caller with no identity, in a process whose cache is unset,
  posts a body without \<open>quote_id\<close> to an empty database: the response is 400, and
  the anonymous identity row has been written, because line 25 resolves the identity
  before line 28 tests \<open>quote_id\<close>. When that resolution is rejected instead, the
  same request is answered 500 and not 400.
\<close>

theorem missing_quote_id_still_resolves_identity:
  "fst (createOrder calm nobody_no_quote fresh_world)
     = Responded 400 (JObj [(''error'', JStr ''quote_id is required'')]) \<and>
   users (db fresh_world) = [] \<and>
   users (db (snd (createOrder calm nobody_no_quote fresh_world)))
     = [\<lparr>user_id = ''9b2f-anon'', email = ''anonymous@exury.io''\<rparr>] \<and>
   fst (createOrder resolve_fails nobody_no_quote fresh_world)
     = Responded 500 (JObj [(''error'', JStr ''Failed to create order''),
                            (''message'', JStr ''connect ECONNREFUSED 10.0.0.5:5432'')])"
  by (simp add: controller_defs resolver_defs example_defs)

lemma pool_query_clients_out:
  "pool_query_anonymous ch (w\<lparr>clients_out := k\<rparr>)
     = (case pool_query_anonymous ch w of (r, w1) \<Rightarrow> (r, w1\<lparr>clients_out := k\<rparr>))"
  by (auto simp: pool_query_anonymous_def Let_def split: fate.splits prod.splits)

lemma resolver_clients_out:
  "getOrCreateAnonymousUserId ch (w\<lparr>clients_out := k\<rparr>)
     = (case getOrCreateAnonymousUserId ch w of (r, w1) \<Rightarrow> (r, w1\<lparr>clients_out := k\<rparr>))"
  by (auto simp: getOrCreateAnonymousUserId_def getOrCreateAnonymousUserId_via_def pool_query_clients_out
           split: option.splits prod.splits sum.splits list.splits)

lemma acting_userId_clients_out:
  "acting_userId ch req (w\<lparr>clients_out := k\<rparr>)
     = (case acting_userId ch req w of (r, w1) \<Rightarrow> (r, w1\<lparr>clients_out := k\<rparr>))"
  by (auto simp: acting_userId_def resolver_clients_out split: option.splits)

lemma without_quote_id_cases:
  assumes "\<not> truthy (req_quote_id req)" and "fate_of ch Connect = Completes"
      and "acting_userId ch req w = (r, w1)"
  shows "(\<exists>uid. r = Inr uid \<and>
            createOrder ch req w = (Responded 400 (JObj [(''error'', JStr ''quote_id is required'')]), w1)) \<or>
         (\<exists>e. r = Inl e \<and>
            snd (createOrder ch req w) = w1 \<and> (\<exists>e'. fate_of ch (Query ROLLBACK) = Rejects e')) \<or>
         (\<exists>e. r = Inl e \<and> fate_of ch (Query ROLLBACK) = Completes \<and>
            createOrder ch req w =
              (Responded 500 (JObj [(''error'', JStr ''Failed to create order''), (''message'', JStr (message e))]),
               w1\<lparr>db := execute (client ch) ROLLBACK (db w1)\<rparr>))"
proof -
  have co: "clients_out w1 = clients_out w"
    using acting_userId_frame[OF assms(3)] by simp
  show ?thesis
  proof (cases r)
    case (Inr uid)
    with assms co show ?thesis
      by (simp add: createOrder_def createOrder_try_def acting_userId_clients_out release_def)
  next
    case (Inl e)
    show ?thesis
    proof (cases "fate_of ch (Query ROLLBACK)")
      case Completes
      with Inl assms co show ?thesis
        by (simp add: createOrder_def createOrder_try_def acting_userId_clients_out release_def client_query_def)
    next
      case (Rejects e')
      with Inl assms co show ?thesis
        by (simp add: createOrder_def createOrder_try_def acting_userId_clients_out release_def client_query_def)
    qed
  qed
qed

text \<open>
  C3, amended. For a body without \<open>quote_id\<close>, once the pool has handed out a client:
  when the acting identity resolves, the response is 400 \<open>quote_id is required\<close> and
  the world is the one identity resolution left; on every path no order row is
  inserted or made visible and the order-number counter is not advanced; the
  \<open>users\<close> table is unchanged or has gained the one anonymous identity row, and it is
  unchanged when the caller is authenticated or the process has the identity cached.
\<close>

theorem createOrder_without_quote_id:
  assumes "\<not> truthy (req_quote_id req)" and "fate_of ch Connect = Completes"
  shows "(\<forall>uid w1. acting_userId ch req w = (Inr uid, w1) \<longrightarrow>
            createOrder ch req w = (Responded 400 (JObj [(''error'', JStr ''quote_id is required'')]), w1)) \<and>
         visible_orders (db (snd (createOrder ch req w))) = visible_orders (db w) \<and>
         length (order_tuples (db (snd (createOrder ch req w)))) = length (order_tuples (db w)) \<and>
         order_number_seq (db (snd (createOrder ch req w))) = order_number_seq (db w) \<and>
         (users (db (snd (createOrder ch req w))) = users (db w) \<or>
          users (db (snd (createOrder ch req w)))
            = users (db w) @ [\<lparr>user_id = gen_random_uuid ch, email = ANONYMOUS_EMAIL\<rparr>]) \<and>
         (truthy (req_user req) \<or> truthy (cachedAnonymousUserId w) \<longrightarrow>
            users (db (snd (createOrder ch req w))) = users (db w))"
proof -
  obtain r w1 where act: "acting_userId ch req w = (r, w1)"
    by (cases "acting_userId ch req w")
  note frame = acting_userId_frame[OF act]
  note cases = without_quote_id_cases[OF assms act]
  have c1: "\<forall>uid w1. acting_userId ch req w = (Inr uid, w1) \<longrightarrow>
            createOrder ch req w = (Responded 400 (JObj [(''error'', JStr ''quote_id is required'')]), w1)"
    using without_quote_id_cases[OF assms] by blast
  have dbs: "db (snd (createOrder ch req w)) = db w1 \<or>
             db (snd (createOrder ch req w)) = execute (client ch) ROLLBACK (db w1)"
    using cases by auto
  have c2: "visible_orders (db (snd (createOrder ch req w))) = visible_orders (db w)"
  proof -
    have "visible_orders (db w1) = visible_orders (db w)"
      using frame by (simp add: visible_orders_def)
    moreover have "visible_orders (execute (client ch) ROLLBACK (db w1)) = visible_orders (db w1)"
      by (rule visible_rollback)
    ultimately show ?thesis using dbs by (elim disjE) (simp_all only:)
  qed
  have c3: "length (order_tuples (db (snd (createOrder ch req w)))) = length (order_tuples (db w))"
    using dbs frame execute_frame[of "client ch" ROLLBACK "db w1"] by auto
  have c4: "order_number_seq (db (snd (createOrder ch req w))) = order_number_seq (db w)"
    using dbs frame execute_frame[of "client ch" ROLLBACK "db w1"] by auto
  have c5: "users (db (snd (createOrder ch req w))) = users (db w) \<or>
          users (db (snd (createOrder ch req w)))
            = users (db w) @ [\<lparr>user_id = gen_random_uuid ch, email = ANONYMOUS_EMAIL\<rparr>]"
    using dbs frame execute_frame[of "client ch" ROLLBACK "db w1"] by auto
  have known: "w1 = w" if "truthy (req_user req) \<or> truthy (cachedAnonymousUserId w)"
    using that act
    by (auto simp: acting_userId_def truthy_def getOrCreateAnonymousUserId_def
                   getOrCreateAnonymousUserId_via_def split: option.splits if_splits)
  have c6: "truthy (req_user req) \<or> truthy (cachedAnonymousUserId w) \<longrightarrow>
            users (db (snd (createOrder ch req w))) = users (db w)"
    using dbs known execute_frame[of "client ch" ROLLBACK "db w1"] by auto
  show ?thesis
    by (rule conjI [OF c1 conjI [OF c2 conjI [OF c3 conjI [OF c4 conjI [OF c5 c6]]]]])
qed

theorem createOrder_without_quote_id_witness:
  "createOrder calm (alice_buys_Q1 \<lparr>req_quote_id := None\<rparr>) fresh_world
     = (Responded 400 (JObj [(''error'', JStr ''quote_id is required'')]), fresh_world)"
proof -
  have q: "\<not> truthy (req_quote_id (alice_buys_Q1 \<lparr>req_quote_id := None\<rparr>))"
    by (simp add: truthy_def)
  have c: "fate_of calm Connect = Completes"
    by (simp add: calm_def)
  have a: "acting_userId calm (alice_buys_Q1 \<lparr>req_quote_id := None\<rparr>) fresh_world = (Inr ''alice'', fresh_world)"
    by (simp add: acting_userId_def alice_buys_Q1_def)
  from createOrder_without_quote_id [OF q c, THEN conjunct1, rule_format, OF a]
  show ?thesis .
qed

lemma createOrder_try_201:
  assumes "createOrder_try ch req w = (Inr (201, b), w')"
  shows "\<exists>uid w1 qid q d1 row d2.
           acting_userId ch req w = (Inr uid, w1) \<and> req_quote_id req = Some qid \<and>
           getQuote (pricing w1) qid = Some q \<and>
           d1 = execute (client ch) BEGIN (db w1) \<and>
           insert_order (client ch) (now ch) (order_of_quote (uuidv4 ch) uid qid q) d1 = (Inr row, d2) \<and>
           w' = w1\<lparr>db := execute (client ch) COMMIT d2\<rparr>"
proof -
  obtain r w1 where act: "acting_userId ch req w = (r, w1)" by (cases "acting_userId ch req w")
  from assms act obtain uid where r: "r = Inr uid"
    by (cases r) (auto simp: createOrder_try_def)
  from assms act r have tq: "truthy (req_quote_id req)"
    by (auto simp: createOrder_try_def split: if_splits)
  then obtain qid where qid: "req_quote_id req = Some qid"
    by (auto simp: truthy_def split: option.splits)
  from assms act r tq qid have v: "pricingService_validateQuote ch qid w1 = Inr True"
    by (auto simp: createOrder_try_def Let_def split: sum.splits if_splits)
  from assms act r tq qid v obtain q where q: "pricingService_getQuote ch qid w1 = Inr (Some q)"
    by (auto simp: createOrder_try_def Let_def split: sum.splits option.splits)
  then have gq: "getQuote (pricing w1) qid = Some q"
    by (auto simp: pricingService_getQuote_def split: fate.splits)
  from assms act r tq qid v q obtain w2 where b: "client_query ch BEGIN w1 = (Inr (), w2)"
    by (auto simp: createOrder_try_def Let_def split: sum.splits prod.splits)
  then have w2: "w2 = w1\<lparr>db := execute (client ch) BEGIN (db w1)\<rparr>"
    by (auto simp: client_query_def split: fate.splits)
  from assms act r tq qid v q b obtain row w3 where
    c: "orderRepository_create ch (order_of_quote (uuidv4 ch) uid qid q) w2 = (Inr row, w3)"
    by (auto simp: createOrder_try_def Let_def order_of_quote_def split: sum.splits prod.splits)
  then obtain d2 where
    ins: "insert_order (client ch) (now ch) (order_of_quote (uuidv4 ch) uid qid q) (db w2) = (Inr row, d2)"
    and w3: "w3 = w2\<lparr>db := d2\<rparr>"
    by (auto simp: orderRepository_create_def split: fate.splits prod.splits)
  from assms act r tq qid v q b c have "client_query ch COMMIT w3 = (Inr (), w')"
    by (auto simp: createOrder_try_def Let_def order_of_quote_def split: sum.splits prod.splits)
  then have w': "w' = w3\<lparr>db := execute (client ch) COMMIT (db w3)\<rparr>"
    by (auto simp: client_query_def split: fate.splits)
  from w2 w3 w' have "w' = w1\<lparr>db := execute (client ch) COMMIT d2\<rparr>" by simp
  with act r qid gq ins w2 show ?thesis by auto
qed


lemma createOrder_201:
  assumes "createOrder ch req w = (Responded 201 b, w')"
  shows "\<exists>uid w1 qid q row d2.
           acting_userId ch req w = (Inr uid, w1) \<and> req_quote_id req = Some qid \<and>
           getQuote (pricing w) qid = Some q \<and>
           insert_order (client ch) (now ch) (order_of_quote (uuidv4 ch) uid qid q)
             (execute (client ch) BEGIN (db w1)) = (Inr row, d2) \<and>
           w' = w1\<lparr>db := execute (client ch) COMMIT d2\<rparr>"
proof -
  let ?w = "w\<lparr>clients_out := clients_out w + 1\<rparr>"
  from assms have con: "fate_of ch Connect = Completes"
    by (auto simp: createOrder_def split: fate.splits)
  obtain r0 w0 where t: "createOrder_try ch req ?w = (r0, w0)"
    by (cases "createOrder_try ch req ?w")
  from assms con t have r0: "r0 = Inr (201, b)" and w': "w' = release w0"
    by (auto simp: createOrder_def split: sum.splits prod.splits)
  from createOrder_try_201[OF t[unfolded r0]] obtain uid w1 qid q row d2 where
    act: "acting_userId ch req ?w = (Inr uid, w1)" and qid: "req_quote_id req = Some qid" and
    gq: "getQuote (pricing w1) qid = Some q" and
    ins: "insert_order (client ch) (now ch) (order_of_quote (uuidv4 ch) uid qid q)
            (execute (client ch) BEGIN (db w1)) = (Inr row, d2)" and
    w0: "w0 = w1\<lparr>db := execute (client ch) COMMIT d2\<rparr>"
    by blast
  obtain r2 w2 where act2: "acting_userId ch req w = (r2, w2)" by (cases "acting_userId ch req w")
  with act have r2: "r2 = Inr uid" and w1: "w1 = w2\<lparr>clients_out := clients_out w + 1\<rparr>"
    by (simp_all add: acting_userId_clients_out)
  note frame = acting_userId_frame[OF act2]
  from frame have co: "clients_out w2 = clients_out w" and pr: "pricing w2 = pricing w" by simp_all
  from w' w0 w1 co have "w' = w2\<lparr>db := execute (client ch) COMMIT d2\<rparr>"
    by (simp add: release_def)
  moreover from gq w1 pr have "getQuote (pricing w) qid = Some q" by simp
  moreover from ins w1 have "insert_order (client ch) (now ch) (order_of_quote (uuidv4 ch) uid qid q)
            (execute (client ch) BEGIN (db w2)) = (Inr row, d2)" by simp
  ultimately show ?thesis using act2 r2 qid by blast
qed

lemma find_last:
  "\<forall>y\<in>set xs. \<not> P y \<Longrightarrow> P x \<Longrightarrow> find P (xs @ [x]) = Some x"
  by (induction xs) auto

lemma insert_then_commit_findById:
  assumes "insert_order c t f (execute c BEGIN d) = (Inr row, d2)"
  shows "findById (order_id f) (execute c COMMIT d2) = Some row \<and> row = new_order f (order_number_seq d + 1) t"
proof -
  let ?d1 = "execute c BEGIN d"
  have open1: "c \<in> set (open_tx ?d1)" by simp
  have tuples1: "order_tuples ?d1 = order_tuples d" and seq1: "order_number_seq ?d1 = order_number_seq d"
    by simp_all
  from assms have fresh: "order_id f \<notin> set (live_ids ?d1)"
    by (auto simp: insert_order_def Let_def split: if_splits)
  from assms fresh open1 have row: "row = new_order f (order_number_seq d + 1) t"
    and d2: "order_tuples d2 = order_tuples d @ [(row, InProgress c)]"
    by (auto simp: insert_order_def Let_def tuples1 seq1 simp del: execute.simps)
  have vis: "visible_orders (execute c COMMIT d2) =
        map fst (filter (\<lambda>t. snd t = Committed) (map (settle c Committed) (order_tuples d))) @ [row]"
    by (simp add: visible_orders_def d2 settle_def)
  have no: "\<forall>y\<in>set (map fst (filter (\<lambda>t. snd t = Committed) (map (settle c Committed) (order_tuples d)))).
              \<not> order_id y = order_id f"
  proof -
    have live: "order_id x \<noteq> order_id f" if "(x, s) \<in> set (order_tuples d)" "s \<noteq> Aborted" for x s
      using fresh that by (force simp: live_ids_def tuples1 simp del: execute.simps)
    show ?thesis
      by (auto simp: settle_def split: if_splits dest: live)
  qed
  have "order_id row = order_id f" by (simp add: row new_order_def)
  with no vis have "findById (order_id f) (execute c COMMIT d2) = Some row"
    unfolding findById_def vis by (intro find_last) auto
  with row show ?thesis by simp
qed

lemma statement_again:
  assumes "anonymous_user_statement f us = (Inr (i # rest), us')"
  shows "anonymous_user_statement f' us' = (Inr [i], us')"
proof (cases "filter (\<lambda>u. email u = ANONYMOUS_EMAIL) us")
  case Nil
  with assms have "i = f" "us' = us @ [\<lparr>user_id = f, email = ANONYMOUS_EMAIL\<rparr>]"
    by (auto simp: anonymous_user_statement_def Let_def split: if_splits)
  with Nil show ?thesis
    by (simp add: anonymous_user_statement_def Let_def)
next
  case (Cons u rest')
  with assms have "i = user_id u" "us' = us"
    by (auto simp: anonymous_user_statement_def Let_def split: if_splits)
  with Cons show ?thesis
    by (simp add: anonymous_user_statement_def Let_def)
qed

lemma resolver_again:
  assumes "getOrCreateAnonymousUserId ch w = (Inr uid, w1)"
      and "cachedAnonymousUserId w2 = cachedAnonymousUserId w1"
      and "users (db w2) = users (db w1)"
      and "fate_of ch' Resolve = Completes"
  shows "\<exists>w3. getOrCreateAnonymousUserId ch' w2 = (Inr uid, w3) \<and>
              order_tuples (db w3) = order_tuples (db w2)"
  using resolver_cases[OF assms(1)]
proof (elim disjE exE conjE)
  fix c assume "cachedAnonymousUserId w = Some c" "c \<noteq> []" "Inr uid = Inr c" "w1 = w"
  with assms(2) have "getOrCreateAnonymousUserId ch' w2 = (Inr uid, w2)"
    by (simp add: resolver_hit)
  then show ?thesis by simp
next
  fix e assume "Inr uid = Inl e"
  then show ?thesis by simp
next
  assume "Inr uid = Inl (Error ''Failed to get or create anonymous user'')"
  then show ?thesis by simp
next
  fix i rest w' assume q: "pool_query_anonymous ch w = (Inr (i # rest), w')"
    and r: "Inr uid = Inr i" and w1: "w1 = w'\<lparr>cachedAnonymousUserId := Some i\<rparr>"
  from q obtain us' where st: "anonymous_user_statement (gen_random_uuid ch) (users (db w)) = (Inr (i # rest), us')"
    and us': "users (db w') = us'"
    by (auto simp: pool_query_anonymous_def Let_def split: fate.splits prod.splits)
  from w1 assms(2) have cache: "cachedAnonymousUserId w2 = Some i" by simp
  from w1 us' assms(3) have users: "users (db w2) = us'" by simp
  show ?thesis
  proof (cases "i = []")
    case False
    with cache r have "getOrCreateAnonymousUserId ch' w2 = (Inr uid, w2)"
      by (simp add: resolver_hit)
    then show ?thesis by simp
  next
    case True
    from statement_again[OF st, of "gen_random_uuid ch'"] users
    have "anonymous_user_statement (gen_random_uuid ch') (users (db w2)) = (Inr [i], users (db w2))"
      by simp
    with cache True r assms(4) show ?thesis
      by (simp add: getOrCreateAnonymousUserId_def getOrCreateAnonymousUserId_via_def
                    pool_query_anonymous_def Let_def)
  qed
qed

lemma acting_again:
  assumes "acting_userId ch req w = (Inr uid, w1)"
      and "req_user req' = req_user req"
      and "cachedAnonymousUserId w2 = cachedAnonymousUserId w1"
      and "users (db w2) = users (db w1)"
      and "fate_of ch' Resolve = Completes"
  shows "\<exists>w3. acting_userId ch' req' w2 = (Inr uid, w3) \<and>
              order_tuples (db w3) = order_tuples (db w2)"
  using acting_userId_cases[OF assms(1)]
proof (elim disjE exE conjE)
  fix u assume "req_user req = Some u" "u \<noteq> []" "Inr uid = Inr u"
  with assms(2) show ?thesis by (simp add: acting_userId_def)
next
  assume a: "\<not> truthy (req_user req)" and g: "getOrCreateAnonymousUserId ch w = (Inr uid, w1)"
  from a assms(2) have "acting_userId ch' req' w2 = getOrCreateAnonymousUserId ch' w2"
    by (auto simp: acting_userId_def truthy_def split: option.splits)
  with resolver_again[OF g assms(3,4,5)] show ?thesis by simp
qed

text \<open>
  C5. An order created from the quote \<open>q\<close> the pricing service returned at creation
  time, read back by the same caller under the id the creation returned: the response
  is 200 and its \<open>base\<close>, \<open>asset\<close>, \<open>fiat_amount\<close> (and \<open>amount\<close>),
  \<open>crypto_amount\<close>, \<open>exchange_rate\<close> and \<open>fee\<close> are those of \<open>q\<close>, whatever the
  pricing service has become in the meantime (\<open>p'\<close> is any pricing service: the
  quote changed, expired or removed). The calls of the read complete.
\<close>

theorem order_round_trip_freezes_quote_fields:
  assumes "createOrder ch req w = (Responded 201 b, w1)"
      and "req_quote_id req = Some qid"
      and "getQuote (pricing w) qid = Some q"
      and "req_user req' = req_user req"
      and "req_params_id req' = uuidv4 ch"
      and "fate_of ch' Resolve = Completes"
      and "fate_of ch' FindById = Completes"
  shows "\<exists>x w2. getOrder ch' req' (w1\<lparr>pricing := p'\<rparr>) = (Responded 200 (order_projection x), w2) \<and>
           base x = quote_base q \<and> asset x = quote_asset q \<and>
           fiatAmount x = quote_amount q \<and> cryptoAmount x = quote_cryptoAmount q \<and>
           exchangeRate x = quote_exchangeRate q \<and> fee x = quote_fee q \<and>
           property (order_projection x) ''base'' = Some (JStr (quote_base q)) \<and>
           property (order_projection x) ''asset'' = Some (JStr (quote_asset q)) \<and>
           property (order_projection x) ''fiat_amount'' = Some (JNum (quote_amount q)) \<and>
           property (order_projection x) ''amount'' = Some (JNum (quote_amount q)) \<and>
           property (order_projection x) ''crypto_amount'' = Some (JNum (quote_cryptoAmount q)) \<and>
           property (order_projection x) ''exchange_rate'' = Some (JNum (quote_exchangeRate q)) \<and>
           property (order_projection x) ''fee'' = Some (JNum (quote_fee q))"
proof -
  from createOrder_201[OF assms(1)] assms(2,3) obtain uid w0 row d2 where
    act: "acting_userId ch req w = (Inr uid, w0)" and
    ins: "insert_order (client ch) (now ch) (order_of_quote (uuidv4 ch) uid qid q)
            (execute (client ch) BEGIN (db w0)) = (Inr row, d2)" and
    w1: "w1 = w0\<lparr>db := execute (client ch) COMMIT d2\<rparr>"
    by auto
  let ?f = "order_of_quote (uuidv4 ch) uid qid q"
  let ?w = "w1\<lparr>pricing := p'\<rparr>"
  from insert_then_commit_findById[OF ins]
  have found: "findById (uuidv4 ch) (db w1) = Some row"
    and row: "row = new_order ?f (order_number_seq (db w0) + 1) (now ch)"
    by (simp_all add: w1 order_of_quote_def)
  have users1: "users (db ?w) = users (db w0)"
    using ins by (auto simp: w1 insert_order_def Let_def split: if_splits)
  have cache1: "cachedAnonymousUserId ?w = cachedAnonymousUserId w0"
    by (simp add: w1)
  from acting_again[OF act assms(4) cache1 users1 assms(6)] obtain w3 where
    act': "acting_userId ch' req' ?w = (Inr uid, w3)" and
    tuples: "order_tuples (db w3) = order_tuples (db ?w)"
    by blast
  from tuples found have "findById (uuidv4 ch) (db w3) = Some row"
    by (simp add: findById_def visible_orders_def)
  with assms(5,7) have read: "orderRepository_findById ch' (req_params_id req') w3 = Inr (Some row)"
    by (simp add: orderRepository_findById_def)
  have owner: "userId row = uid"
    by (simp add: row new_order_def order_of_quote_def)
  from act' read owner have "getOrder ch' req' ?w = (Responded 200 (order_projection row), w3)"
    by (simp add: getOrder_def)
  moreover have "base row = quote_base q \<and> asset row = quote_asset q \<and>
           fiatAmount row = quote_amount q \<and> cryptoAmount row = quote_cryptoAmount q \<and>
           exchangeRate row = quote_exchangeRate q \<and> fee row = quote_fee q"
    by (simp add: row new_order_def order_of_quote_def)
  ultimately show ?thesis
    by (intro exI[of _ row] exI[of _ w3]) (simp add: order_projection_def)
qed

theorem order_round_trip_freezes_quote_fields_witness:
  "\<exists>body w2. getOrder calm alice_reads (after_alice\<lparr>pricing := no_quotes\<rparr>) = (Responded 200 body, w2) \<and>
      property body ''base'' = Some (JStr ''EUR'') \<and>
      property body ''asset'' = Some (JStr ''BTC'') \<and>
      property body ''fiat_amount'' = Some (JNum 100) \<and>
      property body ''crypto_amount'' = Some (JNum (2 / 1000)) \<and>
      property body ''exchange_rate'' = Some (JNum 50000) \<and>
      property body ''fee'' = Some (JNum 1)"
proof -
  have created: "createOrder calm alice_buys_Q1 fresh_world =
      (Responded 201 (JObj [(''id'', JStr ''41c7-order''), (''order_id'', JStr ''41c7-order''),
          (''order_number'', JNum 1), (''reference'', JStr ''1''),
          (''status'', JStr ''QUOTE_LOCKED'')]), after_alice)"
    by (simp add: controller_defs example_defs)
  have qid: "req_quote_id alice_buys_Q1 = Some ''Q1''"
    by (simp add: alice_buys_Q1_def)
  have q: "getQuote (pricing fresh_world) ''Q1'' = Some Q1"
    by (simp add: fresh_world_def quotes_Q1_def)
  have same: "req_user alice_reads = req_user alice_buys_Q1"
    by (simp add: alice_reads_def alice_buys_Q1_def)
  have id: "req_params_id alice_reads = uuidv4 calm"
    by (simp add: alice_reads_def calm_def)
  have f1: "fate_of calm Resolve = Completes" and f2: "fate_of calm FindById = Completes"
    by (simp_all add: calm_def)
  from order_round_trip_freezes_quote_fields [OF created qid q same id f1 f2, of no_quotes]
  show ?thesis
    by (auto simp: Q1_def)
qed

text \<open>
  C9, at a failing input. \<open>NODE_ENV\<close> is \<open>production\<close> and the insert is rejected
  with a driver error: the 500 response of \<open>createOrder\<close> carries the raw message
  under \<open>message\<close> (line 77), and so do those of \<open>getOrder\<close> (line 129) and
  \<open>getUserOrders\<close> (line 150) when their read is rejected. The error middleware of
  server.ts, given the same error in the same process, leaves the message out.
\<close>

theorem createOrder_failure_carries_raw_message:
  "NODE_ENV fresh_world = Some ''production'' \<and>
   fst (createOrder insert_fails alice_buys_Q1 fresh_world)
     = Responded 500 (JObj [(''error'', JStr ''Failed to create order''),
                            (''message'', JStr ''connect ECONNREFUSED 10.0.0.5:5432'')]) \<and>
   fst (getOrder read_fails alice_reads fresh_world)
     = Responded 500 (JObj [(''error'', JStr ''Failed to get order''),
                            (''message'', JStr ''relation orders does not exist'')]) \<and>
   fst (getUserOrders read_fails alice_reads fresh_world)
     = Responded 500 (JObj [(''error'', JStr ''Failed to get orders''),
                            (''message'', JStr ''relation orders does not exist'')]) \<and>
   error_middleware fresh_world (Error ''connect ECONNREFUSED 10.0.0.5:5432'')
     = Responded 500 (JObj [(''error'', JStr ''Internal server error'')])"
  by (simp add: controller_defs example_defs error_middleware_def)

text \<open>
  C4, at a failing input. The insert is rejected because the connection is lost, and
  the \<open>ROLLBACK\<close> the \<open>catch\<close> awaits (line 73) is rejected as well: the error
  leaves the handler before line 75, so no 500 response is written.
\<close>

theorem createOrder_rollback_rejected_no_response:
  "fst (createOrder connection_lost alice_buys_Q1 fresh_world)
     = Escaped (Error ''Client has encountered a connection error and is not queryable'')"
  by (simp add: controller_defs example_defs connection_lost_def)

section \<open>Order numbers\<close>

lemma numbers_settle:
  "map (\<lambda>t. orderNumber (fst t)) (map (settle c s) ts) = map (\<lambda>t. orderNumber (fst t)) ts"
  by (induction ts) (auto simp: settle_def)

lemma numbers_settle_comp:
  "(\<lambda>t. orderNumber (fst t)) \<circ> settle c s = (\<lambda>t. orderNumber (fst t))"
  by (auto simp: settle_def fun_eq_iff)

lemma execute_numbered: "numbered_from s0 d \<Longrightarrow> numbered_from s0 (execute c s d)"
  by (cases s) (auto simp: numbered_from_def numbers_settle_comp)

lemma upto_snoc: "(a::int) \<le> b + 1 \<Longrightarrow> [a .. b] @ [b + 1] = [a .. b + 1]"
  using upto_rec2[of a "b + 1"] by simp

lemma insert_numbered:
  assumes "numbered_from s0 d"
  shows "numbered_from s0 (snd (insert_order c t f d))"
  using assms
  by (auto simp: numbered_from_def insert_order_def Let_def new_order_def upto_snoc)

lemma step_numbered: "numbered_from s0 d \<Longrightarrow> numbered_from s0 (store_step d op)"
  by (cases op) (simp_all add: execute_numbered insert_numbered)

lemma run_numbered: "numbered_from s0 d \<Longrightarrow> numbered_from s0 (run_store ops d)"
  unfolding run_store_def
  by (induction ops arbitrary: d) (simp_all add: step_numbered)

lemma visible_numbers:
  "map orderNumber (visible_orders d)
     = map (\<lambda>t. orderNumber (fst t)) (filter (\<lambda>t. snd t = Committed) (order_tuples d))"
  by (simp add: visible_orders_def comp_def)

lemma sorted_wrt_map_filter:
  "sorted_wrt R (map g xs) \<Longrightarrow> sorted_wrt R (map g (filter P xs))"
  by (simp add: sorted_wrt_map sorted_wrt_filter)

lemma acting_userId_numbered:
  "acting_userId ch req w = (r, w1) \<Longrightarrow> numbered_from s0 (db w1) = numbered_from s0 (db w)"
  by (auto simp: numbered_from_def dest!: acting_userId_frame)

lemma client_query_numbered:
  "client_query ch s w = (r, w1) \<Longrightarrow> numbered_from s0 (db w) \<Longrightarrow> numbered_from s0 (db w1)"
  by (auto simp: client_query_def execute_numbered split: fate.splits simp del: execute.simps)

lemma create_numbered:
  "orderRepository_create ch f w = (r, w1) \<Longrightarrow> numbered_from s0 (db w) \<Longrightarrow> numbered_from s0 (db w1)"
  using insert_numbered[of s0 "db w" "client ch" "now ch" f]
  by (auto simp: orderRepository_create_def split: fate.splits prod.splits)

lemma createOrder_try_numbered:
  assumes "createOrder_try ch req w = (r, w')" and "numbered_from s0 (db w)"
  shows "numbered_from s0 (db w')"
proof -
  obtain r1 w1 where act: "acting_userId ch req w = (r1, w1)" by (cases "acting_userId ch req w")
  have n1: "numbered_from s0 (db w1)" using acting_userId_numbered[OF act] assms(2) by simp
  obtain r2 w2 where b: "client_query ch BEGIN w1 = (r2, w2)" by (cases "client_query ch BEGIN w1")
  have n2: "numbered_from s0 (db w2)" using client_query_numbered[OF b n1] .
  have n3: "numbered_from s0 (db w3)" if "orderRepository_create ch f w2 = (r3, w3)" for f r3 w3
    using create_numbered[OF that n2] .
  have n4: "numbered_from s0 (db w4)"
    if "orderRepository_create ch f w2 = (r3, w3)" "client_query ch COMMIT w3 = (r4, w4)" for f r3 w3 r4 w4
    using client_query_numbered[OF that(2) n3[OF that(1)]] .
  from assms(1) act b n1 n2 show ?thesis
    by (auto simp: createOrder_try_def Let_def split: sum.splits if_splits option.splits prod.splits
             dest: n3 n4)
qed

lemma createOrder_numbered:
  assumes "numbered_from s0 (db w)"
  shows "numbered_from s0 (db (snd (createOrder ch req w)))"
proof (cases "fate_of ch Connect")
  case (Rejects e)
  with assms show ?thesis by (simp add: createOrder_def)
next
  case Completes
  let ?w = "w\<lparr>clients_out := clients_out w + 1\<rparr>"
  obtain r w1 where t: "createOrder_try ch req ?w = (r, w1)" by (cases "createOrder_try ch req ?w")
  from assms have "numbered_from s0 (db ?w)" by simp
  from createOrder_try_numbered[OF t this] have n1: "numbered_from s0 (db w1)" .
  obtain r2 w2 where rb: "client_query ch ROLLBACK w1 = (r2, w2)" by (cases "client_query ch ROLLBACK w1")
  from client_query_numbered[OF rb n1] have n2: "numbered_from s0 (db w2)" .
  from Completes t rb n1 n2 show ?thesis
    by (auto simp: createOrder_def release_def split: sum.splits prod.splits)
qed

lemma createOrder_each_numbered:
  "numbered_from s0 (db w) \<Longrightarrow> numbered_from s0 (db (snd (createOrder_each steps w)))"
proof (induction steps arbitrary: w)
  case Nil
  then show ?case by simp
next
  case (Cons step steps)
  obtain ch req cache where step: "step = (ch, req, cache)" by (cases step)
  let ?w = "w\<lparr>cachedAnonymousUserId := cache\<rparr>"
  from Cons.prems have "numbered_from s0 (db ?w)" by simp
  from createOrder_numbered[OF this, of ch req]
  have "numbered_from s0 (db (snd (createOrder ch req ?w)))" .
  from Cons.IH[OF this] step show ?case
    by (auto split: prod.splits)
qed

lemma numbered_visible:
  assumes "numbered_from s0 d"
  shows "sorted_wrt (<) (map orderNumber (visible_orders d)) \<and>
         distinct (map orderNumber (visible_orders d)) \<and>
         set (map orderNumber (visible_orders d)) \<subseteq> {s0 + 1 .. order_number_seq d} \<and>
         (\<forall>n \<in> {s0 + 1 .. order_number_seq d}.
            n \<in> set (map orderNumber (visible_orders d)) \<or>
            (\<exists>t \<in> set (order_tuples d). orderNumber (fst t) = n \<and> snd t \<noteq> Committed))"
proof -
  from assms have nums: "map (\<lambda>t. orderNumber (fst t)) (order_tuples d) = [s0 + 1 .. order_number_seq d]"
    by (simp add: numbered_from_def)
  have "sorted_wrt (<) (map (\<lambda>t. orderNumber (fst t)) (order_tuples d))"
    unfolding nums by simp
  then have sorted: "sorted_wrt (<) (map orderNumber (visible_orders d))"
    unfolding visible_numbers by (rule sorted_wrt_map_filter)
  then have dist: "distinct (map orderNumber (visible_orders d))"
    by (simp add: strict_sorted_iff)
  have sub: "set (map orderNumber (visible_orders d)) \<subseteq> {s0 + 1 .. order_number_seq d}"
  proof -
    have "set (map orderNumber (visible_orders d)) \<subseteq> set (map (\<lambda>t. orderNumber (fst t)) (order_tuples d))"
      unfolding visible_numbers by auto
    then show ?thesis unfolding nums by simp
  qed
  have gaps: "\<forall>n \<in> {s0 + 1 .. order_number_seq d}.
            n \<in> set (map orderNumber (visible_orders d)) \<or>
            (\<exists>t \<in> set (order_tuples d). orderNumber (fst t) = n \<and> snd t \<noteq> Committed)"
  proof
    fix n assume "n \<in> {s0 + 1 .. order_number_seq d}"
    then have "n \<in> set (map (\<lambda>t. orderNumber (fst t)) (order_tuples d))"
      unfolding nums by simp
    then obtain t where t: "t \<in> set (order_tuples d)" "orderNumber (fst t) = n" by auto
    show "n \<in> set (map orderNumber (visible_orders d)) \<or>
            (\<exists>t \<in> set (order_tuples d). orderNumber (fst t) = n \<and> snd t \<noteq> Committed)"
    proof (cases "snd t = Committed")
      case True
      with t have "n \<in> set (map orderNumber (visible_orders d))"
        unfolding visible_numbers by force
      then show ?thesis ..
    next
      case False
      with t show ?thesis by blast
    qed
  qed
  show ?thesis
    by (rule conjI [OF sorted conjI [OF dist conjI [OF sub gaps]]])
qed

lemma run_store_seq: "order_number_seq d \<le> order_number_seq (run_store ops d)"
proof -
  have step: "order_number_seq d' \<le> order_number_seq (store_step d' op)" for d' op
  proof (cases op)
    case (Transaction c s)
    then show ?thesis by (cases s) simp_all
  next
    case (Insert c t f)
    then show ?thesis by (simp add: insert_order_def Let_def)
  qed
  have "order_number_seq d' \<le> order_number_seq (foldl store_step d' ops)" for d'
  proof (induction ops arbitrary: d')
    case Nil show ?case by simp
  next
    case (Cons op ops)
    from step[of d' op] Cons[of "store_step d' op"] show ?case by simp
  qed
  then show ?thesis by (simp add: run_store_def)
qed

text \<open>
  C1. The statements of any number of connections, opened by any number of processes
  and interleaved in any way, run against a store whose numbering starts at \<open>s0\<close>.
  The order numbers of all row versions ever written are, in the order the store
  wrote them, exactly the integers from \<open>s0 + 1\<close> to the counter, which never goes
  back. So the numbers of the committed orders are strictly increasing in creation
  order, no two are equal, all lie between \<open>s0 + 1\<close> and the counter, and every number
  in that range that no committed order carries belongs to a row version that is not
  committed: a creation attempt that rolled back, or one still in progress. The same
  holds after any sequence of \<open>createOrder\<close> requests, whatever each draws and
  whichever process handles it.
\<close>

theorem order_numbers_unique_and_increasing:
  assumes "numbered_from s0 d"
  shows "numbered_from s0 (run_store ops d) \<and>
         order_number_seq d \<le> order_number_seq (run_store ops d) \<and>
         sorted_wrt (<) (map orderNumber (visible_orders (run_store ops d))) \<and>
         distinct (map orderNumber (visible_orders (run_store ops d))) \<and>
         set (map orderNumber (visible_orders (run_store ops d)))
           \<subseteq> {s0 + 1 .. order_number_seq (run_store ops d)} \<and>
         (\<forall>n \<in> {s0 + 1 .. order_number_seq (run_store ops d)}.
            n \<in> set (map orderNumber (visible_orders (run_store ops d))) \<or>
            (\<exists>t \<in> set (order_tuples (run_store ops d)). orderNumber (fst t) = n \<and> snd t \<noteq> Committed)) \<and>
         (\<forall>steps w. db w = d \<longrightarrow>
            numbered_from s0 (db (snd (createOrder_each steps w))) \<and>
            sorted_wrt (<) (map orderNumber (visible_orders (db (snd (createOrder_each steps w))))) \<and>
            distinct (map orderNumber (visible_orders (db (snd (createOrder_each steps w))))) \<and>
            set (map orderNumber (visible_orders (db (snd (createOrder_each steps w)))))
              \<subseteq> {s0 + 1 .. order_number_seq (db (snd (createOrder_each steps w)))})"
proof -
  have inv: "numbered_from s0 (run_store ops d)" using run_numbered[OF assms] .
  have mono: "order_number_seq d \<le> order_number_seq (run_store ops d)" by (rule run_store_seq)
  note vis = numbered_visible[OF inv]
  have each: "\<forall>steps w. db w = d \<longrightarrow>
            numbered_from s0 (db (snd (createOrder_each steps w))) \<and>
            sorted_wrt (<) (map orderNumber (visible_orders (db (snd (createOrder_each steps w))))) \<and>
            distinct (map orderNumber (visible_orders (db (snd (createOrder_each steps w))))) \<and>
            set (map orderNumber (visible_orders (db (snd (createOrder_each steps w)))))
              \<subseteq> {s0 + 1 .. order_number_seq (db (snd (createOrder_each steps w)))}"
  proof (intro allI impI)
    fix steps and w :: world assume "db w = d"
    with assms have "numbered_from s0 (db w)" by simp
    from createOrder_each_numbered[OF this, of steps]
    have n: "numbered_from s0 (db (snd (createOrder_each steps w)))" .
    from n numbered_visible[OF n]
    show "numbered_from s0 (db (snd (createOrder_each steps w))) \<and>
            sorted_wrt (<) (map orderNumber (visible_orders (db (snd (createOrder_each steps w))))) \<and>
            distinct (map orderNumber (visible_orders (db (snd (createOrder_each steps w))))) \<and>
            set (map orderNumber (visible_orders (db (snd (createOrder_each steps w)))))
              \<subseteq> {s0 + 1 .. order_number_seq (db (snd (createOrder_each steps w)))}"
      by (intro conjI) (elim conjE, assumption)+
  qed
  show ?thesis
    by (rule conjI [OF inv conjI [OF mono conjI [OF vis [THEN conjunct1]
          conjI [OF vis [THEN conjunct2, THEN conjunct1]
          conjI [OF vis [THEN conjunct2, THEN conjunct2, THEN conjunct1]
          conjI [OF vis [THEN conjunct2, THEN conjunct2, THEN conjunct2] each]]]]]])
qed

theorem order_numbers_unique_and_increasing_witness:
  "numbered_from 0 empty_store \<and>
   map orderNumber (visible_orders (run_store two_buyers empty_store)) = [2, 3] \<and>
   map (\<lambda>t. (orderNumber (fst t), snd t)) (order_tuples (run_store two_buyers empty_store))
     = [(1, Aborted), (2, Committed), (3, Committed)] \<and>
   order_number_seq (run_store two_buyers empty_store) = 3 \<and>
   distinct (map orderNumber (visible_orders (run_store two_buyers empty_store)))"
proof -
  have start: "numbered_from 0 empty_store"
    by (simp add: numbered_from_def empty_store_def)
  have run: "map (\<lambda>t. (orderNumber (fst t), snd t)) (order_tuples (run_store two_buyers empty_store))
               = [(1, Aborted), (2, Committed), (3, Committed)] \<and>
             order_number_seq (run_store two_buyers empty_store) = 3"
    by (simp add: run_store_def two_buyers_def empty_store_def insert_order_def Let_def new_order_def
          live_ids_def settle_def order_of_quote_def)
  have vis: "map orderNumber (visible_orders (run_store two_buyers empty_store)) = [2, 3]"
    by (simp add: run_store_def two_buyers_def empty_store_def insert_order_def Let_def new_order_def
          live_ids_def settle_def order_of_quote_def visible_orders_def)
  note all = order_numbers_unique_and_increasing [OF start, of two_buyers]
  note dist = all [THEN conjunct2, THEN conjunct2, THEN conjunct2, THEN conjunct1]
  from start vis run dist show ?thesis by (intro conjI) simp_all
qed

section \<open>The migration\<close>

lemma length_upto_nat: "length [v + 1 .. v + int n] = n"
  by simp











text \<open>With \<open>SET NOT NULL\<close> moved before the backfill, the run stops on the existing rows.\<close>

lemma not_null_before_backfill_fails:
  "run_migration [CREATE_SEQUENCE, ADD_COLUMN, SET_NOT_NULL, BACKFILL, CREATE_UNIQUE_INDEX, SET_DEFAULT]
     three_orders = Inl (Error ''column order_number contains null values'')"
  by (simp add: three_orders_def)

end
